theory Spec2Isabelle
  imports Complex_Main
begin

section \<open>The mirror strategy of kelp (plugins/mirrorStrategy.go)\<close>

text \<open>
  The strategy copies the order book of a backing exchange onto the primary exchange
  (\<open>UpdateWithOps\<close>, \<open>updateLevels\<close>, \<open>doModifyOffer\<close>) and, when
  \<open>offsetTrades\<close> is set, offsets every fill on the backing exchange
  (\<open>HandleFill\<close>, \<open>baseVolumeToOffset\<close>). The package \<open>model\<close>
  (\<open>Number\<close>, \<open>Order\<close>, \<open>Trade\<close>, \<open>OrderConstraints\<close>), the primary
  exchange client \<open>SDEX\<close>, the liability cache \<open>IEIF\<close> and the backing exchange
  are collaborators of the strategy; the strategy's own functions are embedded below
  line by line.
\<close>

subsection \<open>Numbers\<close>

text \<open>
  Modelled from the spec: the type \<open>model.Number\<close> and its operations, which the
  strategy uses everywhere and whose source file is not part of the sources at hand.
  The specification describes a fixed-precision decimal with an intrinsic precision,
  with \<open>add\<close>, \<open>subtract\<close>, \<open>multiply\<close>, \<open>scale\<close>, \<open>invert\<close>, an
  approximate equality and \<open>capPrecision\<close>, which truncates to the given number of
  decimals and never rounds up.

  A number is its value, read by \<open>AsFloat\<close>, and its precision. The value is a
  rational: binary floating point is idealised to exact arithmetic, which is how the
  specification writes every formula (\<open>total += volume\<close>, \<open>u = total - committed\<close>,
  \<open>volume * price\<close>). Values may be negative: the comment on \<open>assetSurplus\<close> in the
  strategy says that negative values mean an asset was offset eagerly, so \<open>Subtract\<close>
  is plain subtraction. The result of a binary operation carries the lower of the two
  precisions, the level at which \<open>EqualsPrecisionNormalized\<close> compares two numbers
  ("within epsilon in normalized form"). The constant \<open>Zero\<close> carries 16 decimals, more
  than any exchange has, so that a sum with it has the precision of the other number.
\<close>

record Number =
  AsFloat :: rat
  Precision :: nat

definition truncateDecimals :: "rat \<Rightarrow> nat \<Rightarrow> rat" where
  "truncateDecimals v p = of_int \<lfloor>v * 10 ^ p\<rfloor> / 10 ^ p"

definition NumberFromFloat :: "rat \<Rightarrow> nat \<Rightarrow> Number" where
  "NumberFromFloat f p = \<lparr>AsFloat = truncateDecimals f p, Precision = p\<rparr>"

definition Zero :: Number where
  "Zero = NumberFromFloat 0 16"

definition NumberByCappingPrecision :: "Number \<Rightarrow> nat \<Rightarrow> Number" where
  "NumberByCappingPrecision n p = NumberFromFloat (AsFloat n) p"

definition Add :: "Number \<Rightarrow> Number \<Rightarrow> Number" where
  "Add n n2 = \<lparr>AsFloat = AsFloat n + AsFloat n2, Precision = min (Precision n) (Precision n2)\<rparr>"

definition Subtract :: "Number \<Rightarrow> Number \<Rightarrow> Number" where
  "Subtract n n2 = \<lparr>AsFloat = AsFloat n - AsFloat n2, Precision = min (Precision n) (Precision n2)\<rparr>"

definition Multiply :: "Number \<Rightarrow> Number \<Rightarrow> Number" where
  "Multiply n n2 = \<lparr>AsFloat = AsFloat n * AsFloat n2, Precision = min (Precision n) (Precision n2)\<rparr>"

definition Scale :: "Number \<Rightarrow> rat \<Rightarrow> Number" where
  "Scale n scaleFactor = \<lparr>AsFloat = AsFloat n * scaleFactor, Precision = Precision n\<rparr>"

text \<open>
  \<open>InvertNumber\<close> of a zero price is \<open>+Inf\<close> in Go and \<open>0\<close> here; offers of the
  primary exchange have positive prices.
\<close>

definition InvertNumber :: "Number \<Rightarrow> Number" where
  "InvertNumber n = \<lparr>AsFloat = 1 / AsFloat n, Precision = Precision n\<rparr>"

definition EqualsPrecisionNormalized :: "Number \<Rightarrow> Number \<Rightarrow> rat \<Rightarrow> bool" where
  "EqualsPrecisionNormalized n n2 epsilon =
     (let p = min (Precision n) (Precision n2)
      in \<bar>truncateDecimals (AsFloat n) p - truncateDecimals (AsFloat n2) p\<bar> \<le> epsilon)"

subsection \<open>Orders, trades, offers and constraints\<close>

text \<open>
  Modelled from the spec: the other types of the package \<open>model\<close> (order action and
  its \<open>Reverse\<close>, trading pair, order, trade, order book, order constraints), with
  the fields that the strategy reads and writes.
\<close>

datatype OrderAction = OrderActionBuy | OrderActionSell

fun Reverse :: "OrderAction \<Rightarrow> OrderAction" where
  "Reverse OrderActionBuy = OrderActionSell"
| "Reverse OrderActionSell = OrderActionBuy"

datatype OrderType = OrderTypeMarket | OrderTypeLimit

type_synonym Asset = string

record TradingPair =
  Base :: Asset
  Quote :: Asset

text \<open>
  \<open>Price\<close> and \<open>Volume\<close> are pointers in Go; the orders of a book and the fills
  handed to the strategy carry both.
\<close>

record Order =
  Pair :: TradingPair
  OrderAction :: OrderAction
  OrderType :: OrderType
  Price :: Number
  Volume :: Number
  Timestamp :: "nat option"

record Trade = Order +
  TransactionID :: "string option"

record OrderBook =
  Bids :: "Order list"
  Asks :: "Order list"

record OrderConstraints =
  PricePrecision :: nat
  VolumePrecision :: nat
  MinBaseVolume :: Number

text \<open>
  An asset and a resting offer of the primary exchange (Horizon's \<open>Asset\<close> and
  \<open>Offer\<close>). Horizon sends amount and price as decimal strings; the record keeps the
  decimal each string denotes, so a string that is no decimal is not an offer here.
\<close>

datatype HorizonAsset = HorizonAsset (AssetType: string) (AssetCode: string) (AssetIssuer: string)

record Offer =
  OfferID :: int
  Selling :: HorizonAsset
  Buying :: HorizonAsset
  OfferAmount :: rat
  OfferPrice :: rat

text \<open>
  Modelled from the spec: \<open>model.MustNumberFromString\<close> and \<open>utils.PriceAsFloat\<close>,
  the two readers of an offer's strings. The specification has \<open>doModifyOffer\<close> parse
  the old price and amount at the primary precisions, and \<open>UpdateWithOps\<close> compare the
  top backing bid with the price of the first resting ask as it is.
\<close>

definition MustNumberFromString :: "rat \<Rightarrow> nat \<Rightarrow> Number" where
  "MustNumberFromString str p = NumberFromFloat str p"

definition PriceAsFloat :: "rat \<Rightarrow> rat" where
  "PriceAsFloat price = price"

subsection \<open>Errors\<close>

text \<open>
  The errors the strategy returns, and the one panic the strategy itself can raise: the
  dereference of a nil backing balance in \<open>checkBalance\<close>. \<open>CollaboratorError\<close> is an
  error of a collaborator that the strategy passes on unchanged.
\<close>

datatype error =
    CollaboratorError string
  | OffsetError Order string
  | OffsetNilTransactionID Order
  | BalancesError string
  | BaseBalanceMissing Asset
  | QuoteBalanceMissing Asset
  | NilPointerDereference

subsection \<open>The collaborators\<close>

text \<open>
  One call of \<open>IEIF.AddLiabilities\<close>: selling asset, buying asset, selling amount,
  buying amount, incremental native amount. The liability cache is the list of the
  calls made so far, oldest first.
\<close>

datatype Liabilities = AddLiabilities HorizonAsset HorizonAsset rat rat rat

text \<open>
  The primary exchange client \<open>SDEX\<close> is a parameter of the strategy: a record of its
  functions, about which nothing is assumed. Its offer builders consult the liability
  cache, so they take it as their first argument; they return an error, no operation
  (nil) or an operation. The operations (\<open>build.TransactionMutator\<close>) are opaque to
  the strategy: the type \<open>'op\<close>.
\<close>

type_synonym 'op modifyOfferFn =
  "Liabilities list \<Rightarrow> Offer \<Rightarrow> rat \<Rightarrow> rat \<Rightarrow> rat \<Rightarrow> string + 'op option"

type_synonym 'op createOfferFn =
  "Liabilities list \<Rightarrow> HorizonAsset \<Rightarrow> HorizonAsset \<Rightarrow> rat \<Rightarrow> rat \<Rightarrow> rat \<Rightarrow> string + 'op option"

record 'op SDEX =
  ModifyBuyOffer :: "'op modifyOfferFn"
  ModifySellOffer :: "'op modifyOfferFn"
  CreateBuyOffer :: "'op createOfferFn"
  CreateSellOffer :: "'op createOfferFn"
  DeleteOffer :: "Offer \<Rightarrow> 'op"
  ComputeIncrementalNativeAmountRaw :: "bool \<Rightarrow> rat"

text \<open>
  The backing exchange is a parameter as well: the exchange as it answers at one moment,
  with the order book, the account balances and the outcome of submitting an order (an
  error, a nil transaction id or a transaction id).
\<close>

record Exchange =
  GetOrderBook :: "TradingPair \<Rightarrow> int \<Rightarrow> string + OrderBook"
  GetAccountBalances :: "Asset list \<Rightarrow> string + (Asset \<rightharpoonup> Number)"
  AddOrder :: "Order \<Rightarrow> string + string option"

subsection \<open>The strategy's state\<close>

text \<open>
  The surplus ledger \<open>baseSurplus\<close> is a Go map that the constructor fills for both
  order actions and that nothing extends or shrinks: a total function. \<open>ieif\<close> is the
  liability cache behind the pointer of the same name. The mutex has no field: it makes
  \<open>HandleFill\<close> one step. \<open>volumeDivideBy\<close> is a divisor of at least 1 by its
  configuration; for 0 Go divides to \<open>+Inf\<close> where HOL gives 0.
\<close>

record assetSurplus =
  total :: Number
  committed :: Number

definition makeAssetSurplus :: assetSurplus where
  "makeAssetSurplus = \<lparr>total = Zero, committed = Zero\<rparr>"

record 'op mirrorStrategy =
  sdex :: "'op SDEX"
  ieif :: "Liabilities list"
  baseAsset :: HorizonAsset
  quoteAsset :: HorizonAsset
  primaryConstraints :: OrderConstraints
  backingPair :: TradingPair
  backingConstraints :: OrderConstraints
  orderbookDepth :: int
  perLevelSpread :: rat
  volumeDivideBy :: rat
  exchange :: Exchange
  offsetTrades :: bool
  baseSurplus :: "OrderAction \<Rightarrow> assetSurplus"
  maxBackingBase :: "Number option"
  maxBackingQuote :: "Number option"

subsection \<open>Offsetting fills: \<open>baseVolumeToOffset\<close> and \<open>HandleFill\<close>\<close>

text \<open>\<open>None\<close> is the result \<open>(nil, false)\<close>, \<open>Some v\<close> is \<open>(v, true)\<close>.\<close>

definition baseVolumeToOffset :: "'op mirrorStrategy \<Rightarrow> Trade \<Rightarrow> OrderAction \<Rightarrow> Number option" where
  "baseVolumeToOffset s trade newOrderAction =
     (let uncommittedBase =
            Subtract (total (baseSurplus s newOrderAction)) (committed (baseSurplus s newOrderAction))
      in if AsFloat uncommittedBase < AsFloat (Scale (MinBaseVolume (backingConstraints s)) (1 / 2))
         then None
         else
           (let newVolume =
                  (if AsFloat uncommittedBase > AsFloat (MinBaseVolume (backingConstraints s))
                   then uncommittedBase
                   else MinBaseVolume (backingConstraints s))
            in Some (NumberByCappingPrecision newVolume (VolumePrecision (backingConstraints s)))))"

text \<open>
  \<open>HandleFill\<close> runs under the strategy's mutex, so a call is one step on the state.
  It returns the state it leaves behind together with its error (\<open>None\<close> is nil).
\<close>

definition HandleFill :: "'op mirrorStrategy \<Rightarrow> Trade \<Rightarrow> 'op mirrorStrategy \<times> error option" where
  "HandleFill s trade =
     (let newOrderAction = Reverse (OrderAction trade);
          s1 = s\<lparr>baseSurplus := (baseSurplus s)(newOrderAction :=
                 (baseSurplus s newOrderAction)
                   \<lparr>total := Add (total (baseSurplus s newOrderAction)) (Volume trade)\<rparr>)\<rparr>
      in case baseVolumeToOffset s1 trade newOrderAction of
           None \<Rightarrow> (s1, None)
         | Some newVolume \<Rightarrow>
             (let s2 = s1\<lparr>baseSurplus := (baseSurplus s1)(newOrderAction :=
                         (baseSurplus s1 newOrderAction)
                           \<lparr>committed := Add (committed (baseSurplus s1 newOrderAction)) newVolume\<rparr>)\<rparr>;
                  newOrder = \<lparr>Pair = backingPair s2,
                              OrderAction = newOrderAction,
                              OrderType = OrderTypeLimit,
                              Price = NumberByCappingPrecision (Price trade)
                                        (PricePrecision (backingConstraints s2)),
                              Volume = newVolume,
                              Timestamp = None\<rparr>
              in case AddOrder (exchange s2) newOrder of
                   Inl e \<Rightarrow> (s2, Some (OffsetError newOrder e))
                 | Inr None \<Rightarrow> (s2, Some (OffsetNilTransactionID newOrder))
                 | Inr (Some transactionID) \<Rightarrow>
                     (s2\<lparr>baseSurplus := (baseSurplus s2)(newOrderAction :=
                          (baseSurplus s2 newOrderAction)
                            \<lparr>total := Subtract (total (baseSurplus s2 newOrderAction)) newVolume,
                             committed := Subtract (committed (baseSurplus s2 newOrderAction)) newVolume\<rparr>)\<rparr>,
                      None)))"

text \<open>
  A trace of fills: the backing exchange may answer differently at every call, so each
  fill comes with the exchange as it answers then. Errors of single fills are returned
  to the caller and the next fill is handled on the state left behind.
\<close>

fun handleFills :: "'op mirrorStrategy \<Rightarrow> (Exchange \<times> Trade) list \<Rightarrow> 'op mirrorStrategy" where
  "handleFills s [] = s"
| "handleFills s ((ex, trade) # fills) = handleFills (fst (HandleFill (s\<lparr>exchange := ex\<rparr>) trade)) fills"

subsection \<open>The balance coordinator\<close>

text \<open>
  \<open>backingBalance\<close> is a pointer that \<open>UpdateWithOps\<close> copies from
  \<open>maxBackingBase\<close> or \<open>maxBackingQuote\<close>, which are nil until \<open>recordBalances\<close>
  has run: \<open>None\<close> is nil, and reading the balance of a nil pointer panics.
  \<open>checkBalance\<close> returns its verdict together with the coordinator it leaves behind.
\<close>

record balanceCoordinator =
  placedUnits :: Number
  backingBalance :: "Number option"
  backingAssetType :: string
  isBackingBuy :: bool

definition checkBalance :: "balanceCoordinator \<Rightarrow> Number \<Rightarrow> Number \<Rightarrow> error + bool \<times> balanceCoordinator" where
  "checkBalance b vol price =
     (let additionalUnits = (if isBackingBuy b then Multiply vol price else vol);
          newPlacedUnits = Add (placedUnits b) additionalUnits
      in case backingBalance b of
           None \<Rightarrow> Inl NilPointerDereference
         | Some balance \<Rightarrow>
             if AsFloat newPlacedUnits > AsFloat balance then Inr (False, b)
             else Inr (True, b\<lparr>placedUnits := newPlacedUnits\<rparr>))"

text \<open>
  A sequence of calls of \<open>checkBalance\<close> on one coordinator, each with its volume and
  price, as the loops of \<open>updateLevels\<close> make them within one update: the coordinator
  that the calls leave behind, or the panic.
\<close>

fun checkBalanceCalls :: "balanceCoordinator \<Rightarrow> (Number \<times> Number) list \<Rightarrow> error + balanceCoordinator" where
  "checkBalanceCalls b [] = Inr b"
| "checkBalanceCalls b ((vol, price) # calls) =
     (case checkBalance b vol price of
        Inl e \<Rightarrow> Inl e
      | Inr (ok, b') \<Rightarrow> checkBalanceCalls b' calls)"

text \<open>
  The guard \<open>s.offsetTrades && !bc.checkBalance(vol, price)\<close> of both loops of
  \<open>updateLevels\<close>: Go evaluates \<open>checkBalance\<close> only when \<open>offsetTrades\<close> is set.
  The result is the value of the guard (true: skip the level) and the coordinator.
\<close>

definition skipLevel :: "bool \<Rightarrow> balanceCoordinator \<Rightarrow> Number \<Rightarrow> Number \<Rightarrow> error + bool \<times> balanceCoordinator" where
  "skipLevel offset bc vol price =
     (if offset
      then (case checkBalance bc vol price of
              Inl e \<Rightarrow> Inl e
            | Inr (ok, bc') \<Rightarrow> Inr (\<not> ok, bc'))
      else Inr (False, bc))"

subsection \<open>\<open>doModifyOffer\<close>\<close>

text \<open>
  The old offer's price and amount as \<open>doModifyOffer\<close> reads them before it compares
  (the values of its variables \<open>oldPrice\<close> and \<open>oldVol\<close> at the comparison): parsed
  at the primary exchange's precisions and, for a buy offer, the volume multiplied by
  the original price and the price inverted.
\<close>

definition oldOrderParams :: "'op mirrorStrategy \<Rightarrow> Offer \<Rightarrow> bool \<Rightarrow> Number \<times> Number" where
  "oldOrderParams s oldOffer hackPriceInvertForBuyOrderChangeCheck =
     (let oldPrice = MustNumberFromString (OfferPrice oldOffer) (PricePrecision (primaryConstraints s));
          oldVol = MustNumberFromString (OfferAmount oldOffer) (VolumePrecision (primaryConstraints s))
      in if hackPriceInvertForBuyOrderChangeCheck
         then (InvertNumber oldPrice, Multiply oldVol oldPrice)
         else (oldPrice, oldVol))"

text \<open>
  The result of \<open>doModifyOffer\<close> is the strategy with its liability cache as the call
  leaves it, and either an error or the pair (modifyOp, deleteOp), \<open>None\<close> for nil.
\<close>

definition doModifyOffer ::
  "'op mirrorStrategy \<Rightarrow> Offer \<Rightarrow> Order \<Rightarrow> rat \<Rightarrow> 'op modifyOfferFn \<Rightarrow> bool
   \<Rightarrow> 'op mirrorStrategy \<times> (error + 'op option \<times> 'op option)" where
  "doModifyOffer s oldOffer newOrder priceMultiplier modifyOffer hackPriceInvertForBuyOrderChangeCheck =
     (let price = Scale (Price newOrder) priceMultiplier;
          vol = Scale (Volume newOrder) (1 / volumeDivideBy s);
          (oldPrice, oldVol) = oldOrderParams s oldOffer hackPriceInvertForBuyOrderChangeCheck;
          epsilon = 1 / 10000;
          incrementalNativeAmountRaw = ComputeIncrementalNativeAmountRaw (sdex s) False;
          sameOrderParams = (EqualsPrecisionNormalized oldPrice price epsilon
                             \<and> EqualsPrecisionNormalized oldVol vol epsilon)
      in if sameOrderParams
         then
           (s\<lparr>ieif := ieif s @
                [if hackPriceInvertForBuyOrderChangeCheck
                 then AddLiabilities (Selling oldOffer) (Buying oldOffer)
                        (AsFloat (Multiply oldVol oldPrice)) (AsFloat oldVol) incrementalNativeAmountRaw
                 else AddLiabilities (Selling oldOffer) (Buying oldOffer)
                        (AsFloat oldVol) (AsFloat (Multiply oldVol oldPrice)) incrementalNativeAmountRaw]\<rparr>,
            Inr (None, None))
         else
           (let offerPrice = NumberByCappingPrecision price (PricePrecision (primaryConstraints s));
                offerAmount = NumberByCappingPrecision vol (VolumePrecision (primaryConstraints s))
            in if offsetTrades s \<and> AsFloat offerAmount < AsFloat (MinBaseVolume (backingConstraints s))
               then (s, Inr (None, Some (DeleteOffer (sdex s) oldOffer)))
               else
                 (case modifyOffer (ieif s) oldOffer (AsFloat offerPrice) (AsFloat offerAmount)
                         incrementalNativeAmountRaw of
                    Inl e \<Rightarrow> (s, Inl (CollaboratorError e))
                  | Inr (Some mo) \<Rightarrow>
                      (s\<lparr>ieif := ieif s @
                           [if hackPriceInvertForBuyOrderChangeCheck
                            then AddLiabilities (Selling oldOffer) (Buying oldOffer)
                                   (AsFloat (Multiply offerAmount offerPrice)) (AsFloat offerAmount)
                                   incrementalNativeAmountRaw
                            else AddLiabilities (Selling oldOffer) (Buying oldOffer)
                                   (AsFloat offerAmount) (AsFloat (Multiply offerAmount offerPrice))
                                   incrementalNativeAmountRaw]\<rparr>,
                       Inr (Some mo, None))
                  | Inr None \<Rightarrow> (s, Inr (None, Some (DeleteOffer (sdex s) oldOffer))))))"

subsection \<open>\<open>updateLevels\<close>\<close>

text \<open>
  The first loop of either branch of \<open>updateLevels\<close>: it pairs \<open>oldOffers[i]\<close> with
  \<open>newOrders[i]\<close> up to the length of the shorter list, which is the bound of the loop
  in both branches. \<open>continue\<close> after a rejected balance check is the recursive call
  that leaves \<open>ops\<close> and \<open>deleteOps\<close> as they are.
\<close>

fun modifyLevels ::
  "'op mirrorStrategy \<Rightarrow> Offer list \<Rightarrow> Order list \<Rightarrow> rat \<Rightarrow> 'op modifyOfferFn \<Rightarrow> bool
   \<Rightarrow> balanceCoordinator \<Rightarrow> 'op list \<Rightarrow> 'op list
   \<Rightarrow> 'op mirrorStrategy \<times> (error + balanceCoordinator \<times> 'op list \<times> 'op list)" where
  "modifyLevels s (oldOffer # oldOffers) (newOrder # newOrders) priceMultiplier modifyOffer hack bc ops deleteOps =
     (case doModifyOffer s oldOffer newOrder priceMultiplier modifyOffer hack of
        (s', Inl e) \<Rightarrow> (s', Inl e)
      | (s', Inr (modifyOp, deleteOp)) \<Rightarrow>
          (case modifyOp of
             Some mo \<Rightarrow>
               (case skipLevel (offsetTrades s') bc (Volume newOrder) (Price newOrder) of
                  Inl e \<Rightarrow> (s', Inl e)
                | Inr (skip, bc') \<Rightarrow>
                    if skip
                    then modifyLevels s' oldOffers newOrders priceMultiplier modifyOffer hack bc' ops deleteOps
                    else modifyLevels s' oldOffers newOrders priceMultiplier modifyOffer hack bc'
                           (ops @ [mo])
                           (case deleteOp of None \<Rightarrow> deleteOps | Some d \<Rightarrow> deleteOps @ [d]))
           | None \<Rightarrow>
               modifyLevels s' oldOffers newOrders priceMultiplier modifyOffer hack bc ops
                 (case deleteOp of None \<Rightarrow> deleteOps | Some d \<Rightarrow> deleteOps @ [d])))"
| "modifyLevels s oldOffers newOrders priceMultiplier modifyOffer hack bc ops deleteOps =
     (s, Inr (bc, ops, deleteOps))"

text \<open>
  The second loop of the branch \<open>len(newOrders) >= len(oldOffers)\<close>, over the new
  orders from index \<open>len(oldOffers)\<close> on.
\<close>

fun createLevels ::
  "'op mirrorStrategy \<Rightarrow> Order list \<Rightarrow> 'op createOfferFn \<Rightarrow> rat \<Rightarrow> bool
   \<Rightarrow> balanceCoordinator \<Rightarrow> 'op list
   \<Rightarrow> 'op mirrorStrategy \<times> (error + balanceCoordinator \<times> 'op list)" where
  "createLevels s [] createOffer priceMultiplier hack bc ops = (s, Inr (bc, ops))"
| "createLevels s (newOrder # newOrders) createOffer priceMultiplier hack bc ops =
     (let price = Scale (Price newOrder) priceMultiplier;
          vol = Scale (Volume newOrder) (1 / volumeDivideBy s);
          incrementalNativeAmountRaw = ComputeIncrementalNativeAmountRaw (sdex s) True
      in if AsFloat vol < AsFloat (MinBaseVolume (backingConstraints s))
         then createLevels s newOrders createOffer priceMultiplier hack bc ops
         else
           (case skipLevel (offsetTrades s) bc vol price of
              Inl e \<Rightarrow> (s, Inl e)
            | Inr (skip, bc') \<Rightarrow>
                if skip
                then createLevels s newOrders createOffer priceMultiplier hack bc' ops
                else
                  (case createOffer (ieif s) (baseAsset s) (quoteAsset s) (AsFloat price) (AsFloat vol)
                          incrementalNativeAmountRaw of
                     Inl e \<Rightarrow> (s, Inl (CollaboratorError e))
                   | Inr None \<Rightarrow> createLevels s newOrders createOffer priceMultiplier hack bc' ops
                   | Inr (Some mo) \<Rightarrow>
                       createLevels
                         (s\<lparr>ieif := ieif s @
                              [if hack
                               then AddLiabilities (quoteAsset s) (baseAsset s)
                                      (AsFloat (Multiply vol price)) (AsFloat vol) incrementalNativeAmountRaw
                               else AddLiabilities (baseAsset s) (quoteAsset s)
                                      (AsFloat vol) (AsFloat (Multiply vol price)) incrementalNativeAmountRaw]\<rparr>)
                         newOrders createOffer priceMultiplier hack bc' (ops @ [mo]))))"

definition updateLevels ::
  "'op mirrorStrategy \<Rightarrow> Offer list \<Rightarrow> Order list \<Rightarrow> 'op modifyOfferFn \<Rightarrow> 'op createOfferFn
   \<Rightarrow> rat \<Rightarrow> bool \<Rightarrow> balanceCoordinator \<Rightarrow> 'op mirrorStrategy \<times> (error + 'op list)" where
  "updateLevels s oldOffers newOrders modifyOffer createOffer priceMultiplier hack bc =
     (if length newOrders \<ge> length oldOffers
      then
        (case modifyLevels s oldOffers newOrders priceMultiplier modifyOffer hack bc [] [] of
           (s1, Inl e) \<Rightarrow> (s1, Inl e)
         | (s1, Inr (bc1, ops1, deleteOps)) \<Rightarrow>
             (case createLevels s1 (drop (length oldOffers) newOrders) createOffer priceMultiplier hack
                     bc1 ops1 of
                (s2, Inl e) \<Rightarrow> (s2, Inl e)
              | (s2, Inr (bc2, ops2)) \<Rightarrow> (s2, Inr (deleteOps @ ops2))))
      else
        (case modifyLevels s oldOffers newOrders priceMultiplier modifyOffer hack bc [] [] of
           (s1, Inl e) \<Rightarrow> (s1, Inl e)
         | (s1, Inr (bc1, ops1, deleteOps)) \<Rightarrow>
             (s1, Inr ((deleteOps @ map (DeleteOffer (sdex s1)) (drop (length newOrders) oldOffers))
                       @ ops1))))"

subsection \<open>\<open>PreUpdate\<close> and \<open>UpdateWithOps\<close>\<close>

definition recordBalances :: "'op mirrorStrategy \<Rightarrow> 'op mirrorStrategy \<times> error option" where
  "recordBalances s =
     (case GetAccountBalances (exchange s) [Base (backingPair s), Quote (backingPair s)] of
        Inl e \<Rightarrow> (s, Some (BalancesError e))
      | Inr balanceMap \<Rightarrow>
          (case balanceMap (Base (backingPair s)) of
             None \<Rightarrow> (s, Some (BaseBalanceMissing (Base (backingPair s))))
           | Some baseBalance \<Rightarrow>
               (let s1 = s\<lparr>maxBackingBase := Some baseBalance\<rparr>
                in case balanceMap (Quote (backingPair s1)) of
                     None \<Rightarrow> (s1, Some (QuoteBalanceMissing (Quote (backingPair s1))))
                   | Some quoteBalance \<Rightarrow> (s1\<lparr>maxBackingQuote := Some quoteBalance\<rparr>, None))))"

definition PreUpdate :: "'op mirrorStrategy \<Rightarrow> rat \<Rightarrow> rat \<Rightarrow> rat \<Rightarrow> rat \<Rightarrow> 'op mirrorStrategy \<times> error option" where
  "PreUpdate s maxAssetA maxAssetB trustA trustB =
     (if offsetTrades s then recordBalances s else (s, None))"

definition UpdateWithOps ::
  "'op mirrorStrategy \<Rightarrow> Offer list \<Rightarrow> Offer list \<Rightarrow> 'op mirrorStrategy \<times> (error + 'op list)" where
  "UpdateWithOps s buyingAOffers sellingAOffers =
     (case GetOrderBook (exchange s) (backingPair s) (orderbookDepth s) of
        Inl e \<Rightarrow> (s, Inl (CollaboratorError e))
      | Inr ob \<Rightarrow>
          (let bids = (if length (Bids ob) > 50 then take 50 (Bids ob) else Bids ob);
               asks = (if length (Asks ob) > 50 then take 50 (Asks ob) else Asks ob);
               sellBalanceCoordinator =
                 \<lparr>placedUnits = Zero, backingBalance = maxBackingBase s,
                  backingAssetType = ''base'', isBackingBuy = False\<rparr>
           in case updateLevels s buyingAOffers bids (ModifyBuyOffer (sdex s)) (CreateBuyOffer (sdex s))
                     (1 - perLevelSpread s) True sellBalanceCoordinator of
                (s1, Inl e) \<Rightarrow> (s1, Inl e)
              | (s1, Inr buyOps) \<Rightarrow>
                  (let buyBalanceCoordinator =
                         \<lparr>placedUnits = Zero, backingBalance = maxBackingQuote s1,
                          backingAssetType = ''quote'', isBackingBuy = True\<rparr>
                   in case updateLevels s1 sellingAOffers asks (ModifySellOffer (sdex s1))
                             (CreateSellOffer (sdex s1)) (1 + perLevelSpread s1) False
                             buyBalanceCoordinator of
                        (s2, Inl e) \<Rightarrow> (s2, Inl e)
                      | (s2, Inr sellOps) \<Rightarrow>
                          (s2, Inr (if length (Bids ob) > 0 \<and> length sellingAOffers > 0
                                       \<and> AsFloat (Price (Bids ob ! 0))
                                           \<ge> PriceAsFloat (OfferPrice (sellingAOffers ! 0))
                                    then sellOps @ buyOps
                                    else buyOps @ sellOps)))))"

subsection \<open>A strategy for concrete runs\<close>

text \<open>
  A primary exchange client whose operations record what they were built from, two
  backing exchanges (one accepts every order, one rejects every order) and a strategy
  with the precisions of the Stellar exchange (7 decimals) on the primary side and 8
  decimals on the backing side, a minimum base volume of 1 and a fresh surplus ledger.
\<close>

datatype testOp = OpDelete int | OpModify int rat rat | OpCreate rat rat

definition testSdex :: "testOp SDEX" where
  "testSdex =
     \<lparr>ModifyBuyOffer = (\<lambda>liabilities offer price amount incr. Inr (Some (OpModify (OfferID offer) price amount))),
      ModifySellOffer = (\<lambda>liabilities offer price amount incr. Inr (Some (OpModify (OfferID offer) price amount))),
      CreateBuyOffer = (\<lambda>liabilities base quote price amount incr. Inr (Some (OpCreate price amount))),
      CreateSellOffer = (\<lambda>liabilities base quote price amount incr. Inr (Some (OpCreate price amount))),
      DeleteOffer = (\<lambda>offer. OpDelete (OfferID offer)),
      ComputeIncrementalNativeAmountRaw = (\<lambda>isNewOffer. if isNewOffer then 1 / 2 else 0)\<rparr>"

definition testOrder :: "rat \<Rightarrow> rat \<Rightarrow> Order" where
  "testOrder price volume =
     \<lparr>Pair = \<lparr>Base = ''XLM'', Quote = ''USD''\<rparr>, OrderAction = OrderActionBuy,
      OrderType = OrderTypeLimit,
      Price = \<lparr>AsFloat = price, Precision = 8\<rparr>, Volume = \<lparr>AsFloat = volume, Precision = 8\<rparr>,
      Timestamp = None\<rparr>"

definition testFill :: "rat \<Rightarrow> Trade" where
  "testFill volume =
     \<lparr>Pair = \<lparr>Base = ''XLM'', Quote = ''USD''\<rparr>, OrderAction = OrderActionBuy,
      OrderType = OrderTypeLimit,
      Price = \<lparr>AsFloat = 1, Precision = 7\<rparr>, Volume = \<lparr>AsFloat = volume, Precision = 7\<rparr>,
      Timestamp = None, TransactionID = Some ''fill''\<rparr>"

definition acceptingExchange :: Exchange where
  "acceptingExchange =
     \<lparr>GetOrderBook = (\<lambda>pair depth. Inr \<lparr>Bids = [], Asks = []\<rparr>),
      GetAccountBalances = (\<lambda>assets. Inr Map.empty),
      AddOrder = (\<lambda>order. Inr (Some ''tx''))\<rparr>"

definition rejectingExchange :: Exchange where
  "rejectingExchange =
     \<lparr>GetOrderBook = (\<lambda>pair depth. Inr \<lparr>Bids = [], Asks = []\<rparr>),
      GetAccountBalances = (\<lambda>assets. Inr Map.empty),
      AddOrder = (\<lambda>order. Inl ''rejected'')\<rparr>"

definition testStrategy :: "testOp mirrorStrategy" where
  "testStrategy =
     \<lparr>sdex = testSdex, ieif = [],
      baseAsset = HorizonAsset ''native'' ''XLM'' [],
      quoteAsset = HorizonAsset ''credit_alphanum4'' ''USD'' ''GISSUER'',
      primaryConstraints = \<lparr>PricePrecision = 7, VolumePrecision = 7,
                             MinBaseVolume = \<lparr>AsFloat = 1 / 10000000, Precision = 7\<rparr>\<rparr>,
      backingPair = \<lparr>Base = ''XLM'', Quote = ''USD''\<rparr>,
      backingConstraints = \<lparr>PricePrecision = 8, VolumePrecision = 8,
                             MinBaseVolume = \<lparr>AsFloat = 1, Precision = 8\<rparr>\<rparr>,
      orderbookDepth = 20, perLevelSpread = 0, volumeDivideBy = 1,
      exchange = acceptingExchange, offsetTrades = True,
      baseSurplus = (\<lambda>action. makeAssetSurplus),
      maxBackingBase = None, maxBackingQuote = None\<rparr>"

text \<open>A surplus ledger with the given total and committed units on both sides.\<close>

definition testLedger :: "rat \<Rightarrow> rat \<Rightarrow> OrderAction \<Rightarrow> assetSurplus" where
  "testLedger t c = (\<lambda>action. \<lparr>total = \<lparr>AsFloat = t, Precision = 8\<rparr>,
                                 committed = \<lparr>AsFloat = c, Precision = 8\<rparr>\<rparr>)"

text \<open>
  Resting offers of the primary exchange. A buy offer sells the quote asset: its amount
  is in quote units and its price is inverted.
\<close>

definition testBuyOffer :: "int \<Rightarrow> rat \<Rightarrow> rat \<Rightarrow> Offer" where
  "testBuyOffer offerID amount price =
     \<lparr>OfferID = offerID, Selling = quoteAsset testStrategy, Buying = baseAsset testStrategy,
      OfferAmount = amount, OfferPrice = price\<rparr>"

definition testSellOffer :: "int \<Rightarrow> rat \<Rightarrow> rat \<Rightarrow> Offer" where
  "testSellOffer offerID amount price =
     \<lparr>OfferID = offerID, Selling = baseAsset testStrategy, Buying = quoteAsset testStrategy,
      OfferAmount = amount, OfferPrice = price\<rparr>"

text \<open>
  A backing exchange with the given order book, and the strategy without
  \<open>offsetTrades\<close> on a book of two bids and one ask; its backing balances are nil.
\<close>

definition bookExchange :: "Order list \<Rightarrow> Order list \<Rightarrow> Exchange" where
  "bookExchange bids asks =
     \<lparr>GetOrderBook = (\<lambda>pair depth. Inr \<lparr>Bids = bids, Asks = asks\<rparr>),
      GetAccountBalances = (\<lambda>assets. Inr Map.empty),
      AddOrder = (\<lambda>order. Inr (Some ''tx''))\<rparr>"

definition mirrorOnly :: "testOp mirrorStrategy" where
  "mirrorOnly = testStrategy\<lparr>offsetTrades := False,
                  exchange := bookExchange [testOrder (1 / 2) 10, testOrder (2 / 5) 20] [testOrder (3 / 5) 10]\<rparr>"

text \<open>A fresh coordinator with the given backing balance, and a number of 8 decimals.\<close>

definition testCoordinator :: "rat \<Rightarrow> bool \<Rightarrow> balanceCoordinator" where
  "testCoordinator balance buy =
     \<lparr>placedUnits = Zero, backingBalance = Some \<lparr>AsFloat = balance, Precision = 8\<rparr>,
      backingAssetType = (if buy then ''quote'' else ''base''), isBackingBuy = buy\<rparr>"

definition testNumber :: "rat \<Rightarrow> Number" where
  "testNumber v = \<lparr>AsFloat = v, Precision = 8\<rparr>"

subsection \<open>Predicates of the properties\<close>

text \<open>
  The bounds that the surplus ledger of one side keeps between calls of
  \<open>HandleFill\<close>: committed is not negative, and committed exceeds total by at most
  half the minimum base volume of the backing exchange.
\<close>

definition surplusBounds :: "'op mirrorStrategy \<Rightarrow> OrderAction \<Rightarrow> bool" where
  "surplusBounds s side =
     (0 \<le> AsFloat (committed (baseSurplus s side))
      \<and> AsFloat (committed (baseSurplus s side)) - AsFloat (total (baseSurplus s side))
          \<le> AsFloat (MinBaseVolume (backingConstraints s)) / 2)"

text \<open>
  What the operations of a batch are, by the call that built them: a delete operation
  is \<open>DeleteOffer\<close> of one of the resting offers, a modify or create operation is an
  operation that the modify or the create function returned. \<open>deletesFirst\<close>: the list
  is delete operations followed by modify and create operations.
\<close>

definition isDeleteOf :: "'op SDEX \<Rightarrow> Offer list \<Rightarrow> 'op \<Rightarrow> bool" where
  "isDeleteOf sd offers x = (x \<in> DeleteOffer sd ` set offers)"

definition isModifyOrCreate :: "'op modifyOfferFn \<Rightarrow> 'op createOfferFn \<Rightarrow> 'op \<Rightarrow> bool" where
  "isModifyOrCreate mf cf x =
     ((\<exists>l off p a i. mf l off p a i = Inr (Some x)) \<or> (\<exists>l b q p a i. cf l b q p a i = Inr (Some x)))"

definition deletesFirst ::
  "'op SDEX \<Rightarrow> Offer list \<Rightarrow> 'op modifyOfferFn \<Rightarrow> 'op createOfferFn \<Rightarrow> 'op list \<Rightarrow> bool" where
  "deletesFirst sd offers mf cf xs =
     (\<exists>deleteOps ops. xs = deleteOps @ ops
        \<and> (\<forall>x \<in> set deleteOps. isDeleteOf sd offers x)
        \<and> (\<forall>x \<in> set ops. isModifyOrCreate mf cf x))"

section \<open>Properties\<close>

subsection \<open>Truncation\<close>

lemma floor_rat_numeral_divide [simp]:
  "\<lfloor>(numeral a :: rat) / numeral b\<rfloor> = numeral a div numeral b"
  by (metis floor_divide_of_int_eq of_int_numeral)

lemma floor_rat_neg_numeral_divide [simp]:
  "\<lfloor>- ((numeral a :: rat) / numeral b)\<rfloor> = - numeral a div numeral b"
  by (metis divide_minus_left floor_divide_of_int_eq of_int_neg_numeral of_int_numeral)

lemma truncateDecimals_le: "truncateDecimals v p \<le> v"
proof -
  have "of_int \<lfloor>v * 10 ^ p\<rfloor> \<le> v * 10 ^ p" by (rule of_int_floor_le)
  then show ?thesis
    unfolding truncateDecimals_def by (simp add: divide_le_eq)
qed

lemma truncateDecimals_nonneg: "0 \<le> v \<Longrightarrow> 0 \<le> truncateDecimals v p"
  unfolding truncateDecimals_def by simp

lemma NumberByCappingPrecision_le: "AsFloat (NumberByCappingPrecision n p) \<le> AsFloat n"
  by (simp add: NumberByCappingPrecision_def NumberFromFloat_def truncateDecimals_le)

lemma NumberByCappingPrecision_nonneg:
  "0 \<le> AsFloat n \<Longrightarrow> 0 \<le> AsFloat (NumberByCappingPrecision n p)"
  by (simp add: NumberByCappingPrecision_def NumberFromFloat_def truncateDecimals_nonneg)

subsection \<open>Unfolding for concrete runs\<close>

lemmas test_defs =
  testStrategy_def testSdex_def testOrder_def testFill_def acceptingExchange_def
  rejectingExchange_def makeAssetSurplus_def Zero_def NumberFromFloat_def
  NumberByCappingPrecision_def MustNumberFromString_def truncateDecimals_def
  Add_def Subtract_def Multiply_def Scale_def InvertNumber_def testLedger_def
  testCoordinator_def testNumber_def testBuyOffer_def testSellOffer_def

lemmas eval_defs =
  test_defs bookExchange_def mirrorOnly_def UpdateWithOps_def updateLevels_def skipLevel_def
  checkBalance_def doModifyOffer_def oldOrderParams_def EqualsPrecisionNormalized_def
  PriceAsFloat_def Let_def

subsection \<open>The volume to offset\<close>

text \<open>
  C1. With \<open>u = total - committed\<close> of the side's surplus and \<open>minBase\<close> the minimum
  base volume of the backing exchange, \<open>baseVolumeToOffset\<close> returns \<open>ok = false\<close>
  when \<open>u < minBase / 2\<close>; it returns \<open>u\<close> capped to the backing exchange's volume
  precision when \<open>u > minBase\<close> (the minimum base volume of an exchange is not
  negative, so \<open>u > minBase\<close> excludes \<open>u < minBase / 2\<close>); otherwise it returns
  \<open>minBase\<close> capped to that precision.
\<close>

theorem baseVolumeToOffset_hedge_volume:
  "(AsFloat (total (baseSurplus s side)) - AsFloat (committed (baseSurplus s side))
      < AsFloat (MinBaseVolume (backingConstraints s)) / 2
    \<longrightarrow> baseVolumeToOffset s trade side = None)
   \<and> (0 \<le> AsFloat (MinBaseVolume (backingConstraints s))
      \<and> AsFloat (total (baseSurplus s side)) - AsFloat (committed (baseSurplus s side))
          > AsFloat (MinBaseVolume (backingConstraints s))
    \<longrightarrow> baseVolumeToOffset s trade side
        = Some (NumberByCappingPrecision
                  (Subtract (total (baseSurplus s side)) (committed (baseSurplus s side)))
                  (VolumePrecision (backingConstraints s))))
   \<and> (\<not> AsFloat (total (baseSurplus s side)) - AsFloat (committed (baseSurplus s side))
          < AsFloat (MinBaseVolume (backingConstraints s)) / 2
      \<and> \<not> AsFloat (total (baseSurplus s side)) - AsFloat (committed (baseSurplus s side))
          > AsFloat (MinBaseVolume (backingConstraints s))
    \<longrightarrow> baseVolumeToOffset s trade side
        = Some (NumberByCappingPrecision (MinBaseVolume (backingConstraints s))
                  (VolumePrecision (backingConstraints s))))"
  by (simp add: baseVolumeToOffset_def Let_def Subtract_def Scale_def)

theorem baseVolumeToOffset_hedge_volume_witness:
  "baseVolumeToOffset (testStrategy\<lparr>baseSurplus := testLedger (3 / 10) 0\<rparr>) (testFill (3 / 10))
       OrderActionSell = None
   \<and> baseVolumeToOffset (testStrategy\<lparr>baseSurplus := testLedger (7 / 2) 1\<rparr>) (testFill (3 / 10))
       OrderActionSell = Some \<lparr>AsFloat = 5 / 2, Precision = 8\<rparr>
   \<and> baseVolumeToOffset (testStrategy\<lparr>baseSurplus := testLedger (6 / 10) 0\<rparr>) (testFill (3 / 10))
       OrderActionSell = Some \<lparr>AsFloat = 1, Precision = 8\<rparr>"
  using baseVolumeToOffset_hedge_volume
          [of "testStrategy\<lparr>baseSurplus := testLedger (3 / 10) 0\<rparr>" OrderActionSell "testFill (3 / 10)"]
        baseVolumeToOffset_hedge_volume
          [of "testStrategy\<lparr>baseSurplus := testLedger (7 / 2) 1\<rparr>" OrderActionSell "testFill (3 / 10)"]
        baseVolumeToOffset_hedge_volume
          [of "testStrategy\<lparr>baseSurplus := testLedger (6 / 10) 0\<rparr>" OrderActionSell "testFill (3 / 10)"]
  by (simp add: test_defs)

subsection \<open>The surplus ledger under \<open>HandleFill\<close>\<close>

lemma baseVolumeToOffset_Some:
  assumes "baseVolumeToOffset s trade a = Some nv"
      and "0 \<le> AsFloat (MinBaseVolume (backingConstraints s))"
  shows "0 \<le> AsFloat nv
         \<and> AsFloat nv - (AsFloat (total (baseSurplus s a)) - AsFloat (committed (baseSurplus s a)))
             \<le> AsFloat (MinBaseVolume (backingConstraints s)) / 2"
proof -
  let ?u = "Subtract (total (baseSurplus s a)) (committed (baseSurplus s a))"
  let ?m = "MinBaseVolume (backingConstraints s)"
  let ?p = "VolumePrecision (backingConstraints s)"
  have half: "\<not> AsFloat ?u < AsFloat ?m / 2"
    using assms(1) by (simp add: baseVolumeToOffset_def Let_def Scale_def split: if_splits)
  show ?thesis
  proof (cases "AsFloat ?u > AsFloat ?m")
    case True
    then have nv: "nv = NumberByCappingPrecision ?u ?p"
      using assms(1) half by (simp add: baseVolumeToOffset_def Let_def Scale_def)
    have "0 \<le> AsFloat ?u" using True assms(2) by simp
    then have "0 \<le> AsFloat nv" unfolding nv by (rule NumberByCappingPrecision_nonneg)
    moreover have "AsFloat nv \<le> AsFloat ?u" unfolding nv by (rule NumberByCappingPrecision_le)
    ultimately show ?thesis using assms(2) by (simp add: Subtract_def)
  next
    case False
    then have nv: "nv = NumberByCappingPrecision ?m ?p"
      using assms(1) half by (simp add: baseVolumeToOffset_def Let_def Scale_def)
    have "0 \<le> AsFloat nv" unfolding nv using assms(2) by (rule NumberByCappingPrecision_nonneg)
    moreover have "AsFloat nv \<le> AsFloat ?m" unfolding nv by (rule NumberByCappingPrecision_le)
    ultimately show ?thesis using half by (simp add: Subtract_def)
  qed
qed

lemma HandleFill_backingConstraints:
  "backingConstraints (fst (HandleFill s trade)) = backingConstraints s"
  by (simp add: HandleFill_def Let_def split: option.split sum.split)

lemma HandleFill_other_side:
  "side \<noteq> Reverse (OrderAction trade)
   \<Longrightarrow> baseSurplus (fst (HandleFill s trade)) side = baseSurplus s side"
  by (simp add: HandleFill_def Let_def split: option.split sum.split)

lemma HandleFill_surplusBounds:
  assumes mb: "0 \<le> AsFloat (MinBaseVolume (backingConstraints s))"
      and vol: "0 \<le> AsFloat (Volume trade)"
      and inv: "surplusBounds s side"
  shows "surplusBounds (fst (HandleFill s trade)) side"
proof (cases "side = Reverse (OrderAction trade)")
  case False
  then show ?thesis
    using inv by (simp add: surplusBounds_def HandleFill_other_side HandleFill_backingConstraints)
next
  case True
  define s1 where "s1 = s\<lparr>baseSurplus := (baseSurplus s)(side :=
                 (baseSurplus s side)\<lparr>total := Add (total (baseSurplus s side)) (Volume trade)\<rparr>)\<rparr>"
  have c0: "0 \<le> AsFloat (committed (baseSurplus s side))"
    and low: "AsFloat (committed (baseSurplus s side)) - AsFloat (total (baseSurplus s side))
               \<le> AsFloat (MinBaseVolume (backingConstraints s)) / 2"
    using inv by (simp_all add: surplusBounds_def)
  have bc1: "backingConstraints s1 = backingConstraints s" by (simp add: s1_def)
  have t1: "AsFloat (total (baseSurplus s1 side))
            = AsFloat (total (baseSurplus s side)) + AsFloat (Volume trade)"
    by (simp add: s1_def Add_def)
  have c1: "committed (baseSurplus s1 side) = committed (baseSurplus s side)"
    by (simp add: s1_def)
  show ?thesis
  proof (cases "baseVolumeToOffset s1 trade side")
    case None
    then have "fst (HandleFill s trade) = s1"
      using True by (simp add: HandleFill_def Let_def s1_def)
    then show ?thesis
      using c0 low vol t1 c1 bc1 by (simp add: surplusBounds_def)
  next
    case (Some nv)
    have nv: "0 \<le> AsFloat nv"
      "AsFloat nv - (AsFloat (total (baseSurplus s1 side)) - AsFloat (committed (baseSurplus s1 side)))
        \<le> AsFloat (MinBaseVolume (backingConstraints s)) / 2"
      using baseVolumeToOffset_Some [OF Some] mb bc1 by simp_all
    have "AsFloat (committed (baseSurplus (fst (HandleFill s trade)) side))
            - AsFloat (total (baseSurplus (fst (HandleFill s trade)) side))
          = AsFloat (committed (baseSurplus s side)) + AsFloat nv
            - (AsFloat (total (baseSurplus s side)) + AsFloat (Volume trade))
          \<and> (AsFloat (committed (baseSurplus (fst (HandleFill s trade)) side))
               = AsFloat (committed (baseSurplus s side)) + AsFloat nv
             \<or> AsFloat (committed (baseSurplus (fst (HandleFill s trade)) side))
               = AsFloat (committed (baseSurplus s side)))"
      using True Some unfolding s1_def
      by (simp add: HandleFill_def Let_def Add_def Subtract_def split: option.split sum.split)
    then show ?thesis
      using nv c0 t1 c1 by (auto simp add: surplusBounds_def HandleFill_backingConstraints)
  qed
qed

lemma handleFills_surplusBounds:
  assumes "0 \<le> AsFloat (MinBaseVolume (backingConstraints s))"
      and "\<forall>(ex, trade) \<in> set fills. 0 \<le> AsFloat (Volume trade)"
      and "surplusBounds s side"
  shows "surplusBounds (handleFills s fills) side"
  using assms
proof (induction fills arbitrary: s)
  case Nil
  then show ?case by simp
next
  case (Cons f fills)
  obtain ex trade where f: "f = (ex, trade)" by (cases f)
  let ?s' = "fst (HandleFill (s\<lparr>exchange := ex\<rparr>) trade)"
  have "surplusBounds (s\<lparr>exchange := ex\<rparr>) side"
    using Cons.prems(3) by (simp add: surplusBounds_def)
  moreover have "0 \<le> AsFloat (MinBaseVolume (backingConstraints (s\<lparr>exchange := ex\<rparr>)))"
    using Cons.prems(1) by simp
  moreover have "0 \<le> AsFloat (Volume trade)"
    using Cons.prems(2) f by simp
  ultimately have "surplusBounds ?s' side"
    by (rule HandleFill_surplusBounds [rotated 2])
  moreover have "0 \<le> AsFloat (MinBaseVolume (backingConstraints ?s'))"
    using Cons.prems(1) by (simp add: HandleFill_backingConstraints)
  moreover have "\<forall>(ex, trade) \<in> set fills. 0 \<le> AsFloat (Volume trade)"
    using Cons.prems(2) by simp
  ultimately have "surplusBounds (handleFills ?s' fills) side"
    by (rule Cons.IH [rotated 2])
  then show ?case by (simp add: f)
qed

text \<open>
  C2, as the code has it. The claim \<open>0 \<le> committed \<le> total\<close> between calls of
  \<open>HandleFill\<close> fails: the strategy offsets the minimum base volume as soon as half of
  it has accumulated and takes the deficit in \<open>total\<close>. What holds between calls, for
  every trace of fills with volumes that are not negative, on a backing exchange whose
  minimum base volume is not negative, started from the fresh ledger, and for both
  sides: committed is not negative, and committed exceeds total by at most half the
  minimum base volume.
\<close>

theorem handleFills_surplus_bounds:
  assumes "0 \<le> AsFloat (MinBaseVolume (backingConstraints s))"
      and "\<forall>(ex, trade) \<in> set fills. 0 \<le> AsFloat (Volume trade)"
      and "baseSurplus s = (\<lambda>action. makeAssetSurplus)"
  shows "surplusBounds (handleFills s fills) side"
proof -
  have "truncateDecimals 0 16 = 0" by (simp add: truncateDecimals_def)
  then have "surplusBounds s side"
    using assms(1,3)
    by (simp add: surplusBounds_def makeAssetSurplus_def Zero_def NumberFromFloat_def)
  with assms(1,2) show ?thesis by (rule handleFills_surplusBounds)
qed

theorem handleFills_surplus_bounds_witness:
  "0 \<le> AsFloat (MinBaseVolume (backingConstraints testStrategy))
   \<and> 0 \<le> AsFloat (Volume (testFill (6 / 10)))
   \<and> 0 \<le> AsFloat (Volume (testFill (3 / 10)))
   \<and> baseSurplus testStrategy = (\<lambda>action. makeAssetSurplus)
   \<and> surplusBounds
        (handleFills testStrategy
           [(acceptingExchange, testFill (6 / 10)), (rejectingExchange, testFill (3 / 10))])
        OrderActionSell"
proof -
  have m: "0 \<le> AsFloat (MinBaseVolume (backingConstraints testStrategy))"
    by (simp add: testStrategy_def)
  have v: "\<forall>(ex, trade) \<in> set [(acceptingExchange, testFill (6 / 10)),
                                  (rejectingExchange, testFill (3 / 10))].
             0 \<le> AsFloat (Volume trade)"
    by (simp add: testFill_def)
  have l: "baseSurplus testStrategy = (\<lambda>action. makeAssetSurplus)"
    by (simp add: testStrategy_def)
  show ?thesis
    using handleFills_surplus_bounds [OF m v l, of OrderActionSell] m l
    by (simp add: testFill_def)
qed

text \<open>
  The claim as stated fails after one accepted fill of 0.6 on a backing exchange with
  minimum base volume 1: the strategy sells 1, total is -0.4 and committed is 0.
\<close>

theorem handleFills_committed_le_total_counterexample:
  "\<not> (0 \<le> AsFloat (committed (baseSurplus
               (handleFills testStrategy [(acceptingExchange, testFill (6 / 10))]) OrderActionSell))
      \<and> AsFloat (committed (baseSurplus
               (handleFills testStrategy [(acceptingExchange, testFill (6 / 10))]) OrderActionSell))
          \<le> AsFloat (total (baseSurplus
               (handleFills testStrategy [(acceptingExchange, testFill (6 / 10))]) OrderActionSell)))"
  by (simp add: test_defs HandleFill_def baseVolumeToOffset_def Let_def)

text \<open>
  C3. When \<open>HandleFill\<close> reaches the submission (the volume to offset is
  \<open>newVolume\<close>) and the backing exchange answers the order with an error or with a nil
  transaction id, \<open>HandleFill\<close> returns an error and the ledger is not rolled back:
  total of the offset side keeps the fill's volume and committed keeps \<open>newVolume\<close>.
  The other side is untouched.
\<close>

theorem HandleFill_failed_submission_keeps_ledger:
  fixes s :: "'op mirrorStrategy" and trade :: Trade
  defines "side \<equiv> Reverse (OrderAction trade)"
  defines "s1 \<equiv> s\<lparr>baseSurplus := (baseSurplus s)(Reverse (OrderAction trade) :=
                   (baseSurplus s (Reverse (OrderAction trade)))
                     \<lparr>total := Add (total (baseSurplus s (Reverse (OrderAction trade))))
                                 (Volume trade)\<rparr>)\<rparr>"
  assumes hedge: "baseVolumeToOffset s1 trade side = Some newVolume"
      and failed: "\<forall>transactionID.
                     AddOrder (exchange s)
                       \<lparr>Pair = backingPair s, OrderAction = side, OrderType = OrderTypeLimit,
                        Price = NumberByCappingPrecision (Price trade)
                                  (PricePrecision (backingConstraints s)),
                        Volume = newVolume, Timestamp = None\<rparr>
                     \<noteq> Inr (Some transactionID)"
  shows "snd (HandleFill s trade) \<noteq> None
         \<and> total (baseSurplus (fst (HandleFill s trade)) side)
             = Add (total (baseSurplus s side)) (Volume trade)
         \<and> committed (baseSurplus (fst (HandleFill s trade)) side)
             = Add (committed (baseSurplus s side)) newVolume
         \<and> baseSurplus (fst (HandleFill s trade)) (Reverse side) = baseSurplus s (Reverse side)"
proof -
  have r: "Reverse side \<noteq> side" by (cases side) simp_all
  show ?thesis
    using hedge failed r unfolding side_def s1_def
    by (simp add: HandleFill_def Let_def split: sum.split option.split)
qed

theorem HandleFill_failed_submission_keeps_ledger_witness:
  "snd (HandleFill (testStrategy\<lparr>exchange := rejectingExchange\<rparr>) (testFill (6 / 10))) \<noteq> None
   \<and> AsFloat (total (baseSurplus
         (fst (HandleFill (testStrategy\<lparr>exchange := rejectingExchange\<rparr>) (testFill (6 / 10))))
         OrderActionSell)) = 6 / 10
   \<and> AsFloat (committed (baseSurplus
         (fst (HandleFill (testStrategy\<lparr>exchange := rejectingExchange\<rparr>) (testFill (6 / 10))))
         OrderActionSell)) = 1"
proof -
  let ?s = "testStrategy\<lparr>exchange := rejectingExchange\<rparr>"
  let ?t = "testFill (6 / 10)"
  have h: "baseVolumeToOffset
             (?s\<lparr>baseSurplus := (baseSurplus ?s)(Reverse (OrderAction ?t) :=
                   (baseSurplus ?s (Reverse (OrderAction ?t)))
                     \<lparr>total := Add (total (baseSurplus ?s (Reverse (OrderAction ?t))))
                                 (Volume ?t)\<rparr>)\<rparr>)
             ?t (Reverse (OrderAction ?t))
           = Some \<lparr>AsFloat = 1, Precision = 8\<rparr>"
    by (simp add: test_defs baseVolumeToOffset_def Let_def)
  have f: "\<forall>transactionID.
             AddOrder (exchange ?s)
               \<lparr>Pair = backingPair ?s, OrderAction = Reverse (OrderAction ?t),
                OrderType = OrderTypeLimit,
                Price = NumberByCappingPrecision (Price ?t) (PricePrecision (backingConstraints ?s)),
                Volume = \<lparr>AsFloat = 1, Precision = 8\<rparr>, Timestamp = None\<rparr>
             \<noteq> Inr (Some transactionID)"
    by (simp add: rejectingExchange_def)
  show ?thesis
    using HandleFill_failed_submission_keeps_ledger [OF h f]
    by (simp add: test_defs)
qed

subsection \<open>The balance coordinator: admission\<close>

lemma checkBalance_Some:
  assumes "backingBalance b = Some balance"
  shows "checkBalance b vol price =
           (if AsFloat (placedUnits b)
                 + (if isBackingBuy b then AsFloat vol * AsFloat price else AsFloat vol)
               > AsFloat balance
            then Inr (False, b)
            else Inr (True, b\<lparr>placedUnits :=
                     Add (placedUnits b) (if isBackingBuy b then Multiply vol price else vol)\<rparr>))"
  using assms by (simp add: checkBalance_def Let_def Add_def Multiply_def)

lemma checkBalance_mono:
  assumes "backingBalance b = Some balance" "0 \<le> AsFloat vol" "0 \<le> AsFloat price"
  shows "\<exists>ok b'. checkBalance b vol price = Inr (ok, b') \<and> backingBalance b' = Some balance
          \<and> AsFloat (placedUnits b) \<le> AsFloat (placedUnits b')"
proof (cases "AsFloat (placedUnits b)
                 + (if isBackingBuy b then AsFloat vol * AsFloat price else AsFloat vol)
               > AsFloat balance")
  case True
  then have "checkBalance b vol price = Inr (False, b)"
    by (simp only: checkBalance_Some [OF assms(1)] if_True)
  then show ?thesis using assms(1) by (intro exI [of _ False] exI [of _ b]) simp
next
  case False
  let ?b' = "b\<lparr>placedUnits :=
               Add (placedUnits b) (if isBackingBuy b then Multiply vol price else vol)\<rparr>"
  have "checkBalance b vol price = Inr (True, ?b')"
    using False by (simp only: checkBalance_Some [OF assms(1)] if_False)
  moreover have "backingBalance ?b' = Some balance" using assms(1) by simp
  moreover have "AsFloat (placedUnits b) \<le> AsFloat (placedUnits ?b')"
    using assms(2,3) by (simp add: Add_def Multiply_def)
  ultimately show ?thesis by blast
qed

lemma checkBalanceCalls_mono:
  assumes "backingBalance b = Some balance"
      and "\<forall>(vol, price) \<in> set calls. 0 \<le> AsFloat vol \<and> 0 \<le> AsFloat price"
  shows "\<exists>b'. checkBalanceCalls b calls = Inr b' \<and> AsFloat (placedUnits b) \<le> AsFloat (placedUnits b')"
  using assms
proof (induction calls arbitrary: b)
  case Nil
  then show ?case by simp
next
  case (Cons c calls)
  obtain vol price where c: "c = (vol, price)" by (cases c)
  have "0 \<le> AsFloat vol" "0 \<le> AsFloat price" using Cons.prems(2) c by simp_all
  from checkBalance_mono [OF Cons.prems(1) this] obtain ok b1 where
    b1: "checkBalance b vol price = Inr (ok, b1)" "backingBalance b1 = Some balance"
        "AsFloat (placedUnits b) \<le> AsFloat (placedUnits b1)"
    by blast
  have "\<forall>(vol, price) \<in> set calls. 0 \<le> AsFloat vol \<and> 0 \<le> AsFloat price"
    using Cons.prems(2) by simp
  from Cons.IH [OF b1(2) this] obtain b' where
    b': "checkBalanceCalls b1 calls = Inr b'" "AsFloat (placedUnits b1) \<le> AsFloat (placedUnits b')"
    by blast
  have "checkBalanceCalls b (c # calls) = Inr b'"
    by (simp add: c b1(1) b'(1))
  moreover have "AsFloat (placedUnits b) \<le> AsFloat (placedUnits b')"
    using b1(3) b'(2) by simp
  ultimately show ?case by blast
qed

lemma checkBalance_True:
  assumes "backingBalance b = Some balance"
      and "checkBalance b vol price = Inr (True, b')"
  shows "AsFloat (placedUnits b')
           = AsFloat (placedUnits b)
             + (if isBackingBuy b then AsFloat vol * AsFloat price else AsFloat vol)
         \<and> AsFloat (placedUnits b') \<le> AsFloat balance"
proof (cases "AsFloat (placedUnits b)
                 + (if isBackingBuy b then AsFloat vol * AsFloat price else AsFloat vol)
               > AsFloat balance")
  case True
  then have "checkBalance b vol price = Inr (False, b)"
    by (simp only: checkBalance_Some [OF assms(1)] if_True)
  with assms(2) show ?thesis by simp
next
  case False
  then have "checkBalance b vol price
             = Inr (True, b\<lparr>placedUnits :=
                     Add (placedUnits b) (if isBackingBuy b then Multiply vol price else vol)\<rparr>)"
    by (simp only: checkBalance_Some [OF assms(1)] if_False)
  with assms(2) have "b' = b\<lparr>placedUnits :=
                     Add (placedUnits b) (if isBackingBuy b then Multiply vol price else vol)\<rparr>"
    by simp
  then show ?thesis using False by (cases "isBackingBuy b") (simp_all add: Add_def Multiply_def)
qed

text \<open>
  C7. \<open>checkBalance\<close> on a coordinator that has a backing balance: the additional
  units are \<open>volume * price\<close> when \<open>isBackingBuy\<close> and \<open>volume\<close> otherwise; the
  call returns false and leaves the coordinator as it is exactly when
  \<open>placedUnits + additional > backingBalance\<close>, and otherwise adds the additional
  units to \<open>placedUnits\<close> and returns true, which keeps \<open>placedUnits\<close> at or below
  the backing balance. Every sequence of calls with volumes and prices that are not
  negative (those of an order book) returns, and leaves \<open>placedUnits\<close> at or above
  where it started.
\<close>

theorem checkBalance_admission:
  assumes "backingBalance b = Some balance"
      and "\<forall>(vol, price) \<in> set calls. 0 \<le> AsFloat vol \<and> 0 \<le> AsFloat price"
  shows "checkBalance b vol price =
           (if AsFloat (placedUnits b)
                 + (if isBackingBuy b then AsFloat vol * AsFloat price else AsFloat vol)
               > AsFloat balance
            then Inr (False, b)
            else Inr (True, b\<lparr>placedUnits :=
                     Add (placedUnits b) (if isBackingBuy b then Multiply vol price else vol)\<rparr>))
         \<and> (\<forall>b'. checkBalance b vol price = Inr (True, b')
               \<longrightarrow> AsFloat (placedUnits b')
                     = AsFloat (placedUnits b)
                       + (if isBackingBuy b then AsFloat vol * AsFloat price else AsFloat vol)
                   \<and> AsFloat (placedUnits b') \<le> AsFloat balance)
         \<and> (\<exists>b'. checkBalanceCalls b calls = Inr b'
                   \<and> AsFloat (placedUnits b) \<le> AsFloat (placedUnits b'))"
proof (intro conjI allI impI)
  show "checkBalance b vol price =
           (if AsFloat (placedUnits b)
                 + (if isBackingBuy b then AsFloat vol * AsFloat price else AsFloat vol)
               > AsFloat balance
            then Inr (False, b)
            else Inr (True, b\<lparr>placedUnits :=
                     Add (placedUnits b) (if isBackingBuy b then Multiply vol price else vol)\<rparr>))"
    by (rule checkBalance_Some [OF assms(1)])
next
  fix b' assume "checkBalance b vol price = Inr (True, b')"
  from checkBalance_True [OF assms(1) this]
  show "AsFloat (placedUnits b')
          = AsFloat (placedUnits b)
            + (if isBackingBuy b then AsFloat vol * AsFloat price else AsFloat vol)"
    and "AsFloat (placedUnits b') \<le> AsFloat balance"
    by simp_all
next
  show "\<exists>b'. checkBalanceCalls b calls = Inr b'
             \<and> AsFloat (placedUnits b) \<le> AsFloat (placedUnits b')"
    by (rule checkBalanceCalls_mono [OF assms])
qed

theorem checkBalance_admission_witness:
  "checkBalance (testCoordinator (3 / 2) False) (testNumber 1) (testNumber 2)
     = Inr (True, (testCoordinator (3 / 2) False)\<lparr>placedUnits := \<lparr>AsFloat = 1, Precision = 8\<rparr>\<rparr>)
   \<and> checkBalance (testCoordinator (3 / 2) True) (testNumber 1) (testNumber 2)
     = Inr (False, testCoordinator (3 / 2) True)
   \<and> checkBalanceCalls (testCoordinator (3 / 2) False)
        [(testNumber 1, testNumber 2), (testNumber 1, testNumber 2), (testNumber 1, testNumber 2)]
     = Inr ((testCoordinator (3 / 2) False)\<lparr>placedUnits := \<lparr>AsFloat = 1, Precision = 8\<rparr>\<rparr>)"
proof -
  have b: "backingBalance (testCoordinator (3 / 2) False) = Some \<lparr>AsFloat = 3 / 2, Precision = 8\<rparr>"
          "backingBalance (testCoordinator (3 / 2) True) = Some \<lparr>AsFloat = 3 / 2, Precision = 8\<rparr>"
    by (simp_all add: test_defs)
  have c: "\<forall>(vol, price) \<in> set [(testNumber 1, testNumber 2), (testNumber 1, testNumber 2),
                                  (testNumber 1, testNumber 2)].
             0 \<le> AsFloat vol \<and> 0 \<le> AsFloat price"
    by (simp add: testNumber_def)
  have e: "\<forall>(vol, price) \<in> set ([] :: (Number \<times> Number) list).
             0 \<le> AsFloat vol \<and> 0 \<le> AsFloat price"
    by simp
  have r: "checkBalanceCalls (testCoordinator (3 / 2) False)
        [(testNumber 1, testNumber 2), (testNumber 1, testNumber 2), (testNumber 1, testNumber 2)]
     = Inr ((testCoordinator (3 / 2) False)\<lparr>placedUnits := \<lparr>AsFloat = 1, Precision = 8\<rparr>\<rparr>)"
    by (simp add: test_defs checkBalance_def Let_def)
  have t1: "checkBalance (testCoordinator (3 / 2) False) (testNumber 1) (testNumber 2)
     = Inr (True, (testCoordinator (3 / 2) False)\<lparr>placedUnits := \<lparr>AsFloat = 1, Precision = 8\<rparr>\<rparr>)"
    using checkBalance_admission [OF b(1) c, of "testNumber 1" "testNumber 2"]
    by (simp add: test_defs)
  have t2: "checkBalance (testCoordinator (3 / 2) True) (testNumber 1) (testNumber 2)
     = Inr (False, testCoordinator (3 / 2) True)"
    using checkBalance_admission [OF b(2) e, of "testNumber 1" "testNumber 2"]
    by (simp add: test_defs)
  show ?thesis using t1 t2 r by simp
qed

subsection \<open>\<open>doModifyOffer\<close>: the offer is kept, or deleted\<close>

text \<open>
  C6. In \<open>doModifyOffer\<close>, for a buy offer (\<open>hackPriceInvertForBuyOrderChangeCheck\<close>)
  the old volume is first the old amount times the old price and the old price is
  inverted. Whenever the old price equals the target price and the old volume equals
  the target volume, both within 0.0001 at normalized precision, the call adds exactly
  one entry to the liability cache, for the offer that is kept, and returns
  \<open>(nil, nil)\<close>: no operation for the level.
\<close>

theorem doModifyOffer_same_order_params:
  assumes old: "oldOrderParams s oldOffer hack = (oldPrice, oldVol)"
      and samePrice: "EqualsPrecisionNormalized oldPrice (Scale (Price newOrder) priceMultiplier) (1 / 10000)"
      and sameVol: "EqualsPrecisionNormalized oldVol (Scale (Volume newOrder) (1 / volumeDivideBy s)) (1 / 10000)"
  shows "(hack \<longrightarrow>
            oldVol = Multiply (MustNumberFromString (OfferAmount oldOffer) (VolumePrecision (primaryConstraints s)))
                              (MustNumberFromString (OfferPrice oldOffer) (PricePrecision (primaryConstraints s)))
            \<and> oldPrice = InvertNumber (MustNumberFromString (OfferPrice oldOffer) (PricePrecision (primaryConstraints s)))
            \<and> AsFloat oldVol
                = AsFloat (MustNumberFromString (OfferAmount oldOffer) (VolumePrecision (primaryConstraints s)))
                  * AsFloat (MustNumberFromString (OfferPrice oldOffer) (PricePrecision (primaryConstraints s)))
            \<and> AsFloat oldPrice
                = 1 / AsFloat (MustNumberFromString (OfferPrice oldOffer) (PricePrecision (primaryConstraints s))))
         \<and> doModifyOffer s oldOffer newOrder priceMultiplier modifyOffer hack
             = (s\<lparr>ieif := ieif s @
                    [if hack
                     then AddLiabilities (Selling oldOffer) (Buying oldOffer)
                            (AsFloat oldVol * AsFloat oldPrice) (AsFloat oldVol)
                            (ComputeIncrementalNativeAmountRaw (sdex s) False)
                     else AddLiabilities (Selling oldOffer) (Buying oldOffer)
                            (AsFloat oldVol) (AsFloat oldVol * AsFloat oldPrice)
                            (ComputeIncrementalNativeAmountRaw (sdex s) False)]\<rparr>,
                Inr (None, None))
         \<and> length (ieif (fst (doModifyOffer s oldOffer newOrder priceMultiplier modifyOffer hack)))
             = length (ieif s) + 1"
proof -
  have remap: "hack \<Longrightarrow>
        oldVol = Multiply (MustNumberFromString (OfferAmount oldOffer) (VolumePrecision (primaryConstraints s)))
                          (MustNumberFromString (OfferPrice oldOffer) (PricePrecision (primaryConstraints s)))
        \<and> oldPrice = InvertNumber (MustNumberFromString (OfferPrice oldOffer) (PricePrecision (primaryConstraints s)))"
    using old by (simp add: oldOrderParams_def Let_def)
  have res: "doModifyOffer s oldOffer newOrder priceMultiplier modifyOffer hack
             = (s\<lparr>ieif := ieif s @
                    [if hack
                     then AddLiabilities (Selling oldOffer) (Buying oldOffer)
                            (AsFloat oldVol * AsFloat oldPrice) (AsFloat oldVol)
                            (ComputeIncrementalNativeAmountRaw (sdex s) False)
                     else AddLiabilities (Selling oldOffer) (Buying oldOffer)
                            (AsFloat oldVol) (AsFloat oldVol * AsFloat oldPrice)
                            (ComputeIncrementalNativeAmountRaw (sdex s) False)]\<rparr>,
                Inr (None, None))"
    using samePrice sameVol by (simp add: doModifyOffer_def old Let_def Multiply_def)
  show ?thesis
    using remap by (simp add: res Multiply_def InvertNumber_def)
qed

theorem doModifyOffer_same_order_params_witness:
  "snd (doModifyOffer testStrategy (testBuyOffer 1 5 2) (testOrder (1 / 2) 10) 1
          (ModifyBuyOffer testSdex) True) = Inr (None, None)
   \<and> ieif (fst (doModifyOffer testStrategy (testBuyOffer 1 5 2) (testOrder (1 / 2) 10) 1
          (ModifyBuyOffer testSdex) True))
      = [AddLiabilities (quoteAsset testStrategy) (baseAsset testStrategy) 5 10 0]"
proof -
  have old: "oldOrderParams testStrategy (testBuyOffer 1 5 2) True
             = (\<lparr>AsFloat = 1 / 2, Precision = 7\<rparr>, \<lparr>AsFloat = 10, Precision = 7\<rparr>)"
    by (simp add: oldOrderParams_def Let_def test_defs)
  have p: "EqualsPrecisionNormalized \<lparr>AsFloat = 1 / 2, Precision = 7\<rparr>
             (Scale (Price (testOrder (1 / 2) 10)) 1) (1 / 10000)"
    by (simp add: EqualsPrecisionNormalized_def Let_def test_defs)
  have v: "EqualsPrecisionNormalized \<lparr>AsFloat = 10, Precision = 7\<rparr>
             (Scale (Volume (testOrder (1 / 2) 10)) (1 / volumeDivideBy testStrategy)) (1 / 10000)"
    by (simp add: EqualsPrecisionNormalized_def Let_def test_defs)
  show ?thesis
    using doModifyOffer_same_order_params [OF old p v, of "ModifyBuyOffer testSdex"]
    by (simp add: test_defs)
qed

text \<open>
  C8. In \<open>doModifyOffer\<close>, when the comparison finds a difference: with
  \<open>offsetTrades\<close> set and the target volume, capped to the primary volume precision,
  below the minimum base volume of the backing exchange, the result is a delete
  operation, no modify operation and no error; and when the modify function returns
  nil, the result is a delete operation as well. The liability cache is unchanged in
  both cases.
\<close>

theorem doModifyOffer_delete:
  assumes old: "oldOrderParams s oldOffer hack = (oldPrice, oldVol)"
      and notSame: "\<not> (EqualsPrecisionNormalized oldPrice (Scale (Price newOrder) priceMultiplier) (1 / 10000)
                       \<and> EqualsPrecisionNormalized oldVol (Scale (Volume newOrder) (1 / volumeDivideBy s)) (1 / 10000))"
  shows "(offsetTrades s
          \<and> AsFloat (NumberByCappingPrecision (Scale (Volume newOrder) (1 / volumeDivideBy s))
                       (VolumePrecision (primaryConstraints s)))
              < AsFloat (MinBaseVolume (backingConstraints s))
          \<longrightarrow> doModifyOffer s oldOffer newOrder priceMultiplier modifyOffer hack
                = (s, Inr (None, Some (DeleteOffer (sdex s) oldOffer))))
         \<and> (modifyOffer (ieif s) oldOffer
               (AsFloat (NumberByCappingPrecision (Scale (Price newOrder) priceMultiplier)
                           (PricePrecision (primaryConstraints s))))
               (AsFloat (NumberByCappingPrecision (Scale (Volume newOrder) (1 / volumeDivideBy s))
                           (VolumePrecision (primaryConstraints s))))
               (ComputeIncrementalNativeAmountRaw (sdex s) False) = Inr None
          \<longrightarrow> doModifyOffer s oldOffer newOrder priceMultiplier modifyOffer hack
                = (s, Inr (None, Some (DeleteOffer (sdex s) oldOffer))))"
  using notSame by (auto simp add: doModifyOffer_def old Let_def)

theorem doModifyOffer_delete_witness:
  "snd (doModifyOffer testStrategy (testBuyOffer 1 5 2) (testOrder (1 / 2) (1 / 2)) 1
          (ModifyBuyOffer testSdex) True) = Inr (None, Some (OpDelete 1))
   \<and> snd (doModifyOffer testStrategy (testBuyOffer 1 5 2) (testOrder (1 / 2) 20) 1
          (\<lambda>liabilities offer price amount incr. Inr None) True) = Inr (None, Some (OpDelete 1))"
proof -
  have old: "oldOrderParams testStrategy (testBuyOffer 1 5 2) True
             = (\<lparr>AsFloat = 1 / 2, Precision = 7\<rparr>, \<lparr>AsFloat = 10, Precision = 7\<rparr>)"
    by (simp add: oldOrderParams_def Let_def test_defs)
  have n1: "\<not> (EqualsPrecisionNormalized \<lparr>AsFloat = 1 / 2, Precision = 7\<rparr>
                 (Scale (Price (testOrder (1 / 2) (1 / 2))) 1) (1 / 10000)
               \<and> EqualsPrecisionNormalized \<lparr>AsFloat = 10, Precision = 7\<rparr>
                 (Scale (Volume (testOrder (1 / 2) (1 / 2))) (1 / volumeDivideBy testStrategy)) (1 / 10000))"
    by (simp add: EqualsPrecisionNormalized_def Let_def test_defs)
  have n2: "\<not> (EqualsPrecisionNormalized \<lparr>AsFloat = 1 / 2, Precision = 7\<rparr>
                 (Scale (Price (testOrder (1 / 2) 20)) 1) (1 / 10000)
               \<and> EqualsPrecisionNormalized \<lparr>AsFloat = 10, Precision = 7\<rparr>
                 (Scale (Volume (testOrder (1 / 2) 20)) (1 / volumeDivideBy testStrategy)) (1 / 10000))"
    by (simp add: EqualsPrecisionNormalized_def Let_def test_defs)
  show ?thesis
    using doModifyOffer_delete [OF old n1, of "ModifyBuyOffer testSdex"]
          doModifyOffer_delete [OF old n2, of "\<lambda>liabilities offer price amount incr. Inr None"]
    by (simp add: test_defs)
qed

subsection \<open>The loops of \<open>updateLevels\<close>\<close>

text \<open>
  \<open>doModifyOffer\<close> has four outcomes; one round of either loop ends the loop with an
  error or continues with a strategy that differs in the liability cache only.
\<close>

lemma doModifyOffer_cases:
  "(\<exists>liab. doModifyOffer s oldOffer newOrder pm mf hack = (s\<lparr>ieif := ieif s @ [liab]\<rparr>, Inr (None, None)))
   \<or> doModifyOffer s oldOffer newOrder pm mf hack = (s, Inr (None, Some (DeleteOffer (sdex s) oldOffer)))
   \<or> (\<exists>e. doModifyOffer s oldOffer newOrder pm mf hack = (s, Inl (CollaboratorError e)))
   \<or> (\<exists>liab mo p a i. mf (ieif s) oldOffer p a i = Inr (Some mo)
          \<and> doModifyOffer s oldOffer newOrder pm mf hack = (s\<lparr>ieif := ieif s @ [liab]\<rparr>, Inr (Some mo, None)))"
proof -
  obtain oldPrice oldVol where old: "oldOrderParams s oldOffer hack = (oldPrice, oldVol)"
    by (cases "oldOrderParams s oldOffer hack")
  show ?thesis
    by (simp add: doModifyOffer_def old Let_def split: sum.split option.split) blast
qed

lemma skipLevel_Inl:
  "skipLevel offset bc vol price = Inl e \<Longrightarrow> offset \<and> e = NilPointerDereference"
  by (auto simp add: skipLevel_def checkBalance_def Let_def split: if_splits option.splits sum.splits)

lemma skipLevel_not_offset: "\<not> offset \<Longrightarrow> skipLevel offset bc vol price = Inr (False, bc)"
  by (simp add: skipLevel_def)

lemma modifyLevels_Cons:
  obtains (error) e where
      "modifyLevels s (oldOffer # oldOffers) (newOrder # newOrders) pm mf hack bc ops deleteOps
       = (s, Inl (CollaboratorError e))"
  | (panic) l where "offsetTrades s"
      "modifyLevels s (oldOffer # oldOffers) (newOrder # newOrders) pm mf hack bc ops deleteOps
       = (s\<lparr>ieif := l\<rparr>, Inl NilPointerDereference)"
  | (continue) l bc1 ops1 deleteOps1 where
      "modifyLevels s (oldOffer # oldOffers) (newOrder # newOrders) pm mf hack bc ops deleteOps
       = modifyLevels (s\<lparr>ieif := l\<rparr>) oldOffers newOrders pm mf hack bc1 ops1 deleteOps1"
      "ops1 = ops \<or> (\<exists>mo l' p a i. mf l' oldOffer p a i = Inr (Some mo) \<and> ops1 = ops @ [mo])"
      "deleteOps1 = deleteOps \<or> deleteOps1 = deleteOps @ [DeleteOffer (sdex s) oldOffer]"
      "\<not> offsetTrades s \<Longrightarrow> bc1 = bc"
proof -
  have self: "s = s\<lparr>ieif := ieif s\<rparr>" by simp
  from doModifyOffer_cases [of s oldOffer newOrder pm mf hack]
  consider (same) liab where
      "doModifyOffer s oldOffer newOrder pm mf hack = (s\<lparr>ieif := ieif s @ [liab]\<rparr>, Inr (None, None))"
    | (del) "doModifyOffer s oldOffer newOrder pm mf hack
             = (s, Inr (None, Some (DeleteOffer (sdex s) oldOffer)))"
    | (err) e where "doModifyOffer s oldOffer newOrder pm mf hack = (s, Inl (CollaboratorError e))"
    | (mod) liab mo p a i where "mf (ieif s) oldOffer p a i = Inr (Some mo)"
        "doModifyOffer s oldOffer newOrder pm mf hack = (s\<lparr>ieif := ieif s @ [liab]\<rparr>, Inr (Some mo, None))"
    by blast
  then show thesis
  proof cases
    case same
    show thesis
      by (rule continue [of "ieif s @ [liab]" bc ops deleteOps]) (simp_all add: same)
  next
    case del
    have "modifyLevels s (oldOffer # oldOffers) (newOrder # newOrders) pm mf hack bc ops deleteOps
          = modifyLevels (s\<lparr>ieif := ieif s\<rparr>) oldOffers newOrders pm mf hack bc ops
              (deleteOps @ [DeleteOffer (sdex s) oldOffer])"
      by (simp add: del)
    then show thesis
      by (rule continue) simp_all
  next
    case err
    show thesis by (rule error [of e]) (simp add: err)
  next
    case mod
    let ?s1 = "s\<lparr>ieif := ieif s @ [liab]\<rparr>"
    show thesis
    proof (cases "skipLevel (offsetTrades s) bc (Volume newOrder) (Price newOrder)")
      case (Inl e)
      from skipLevel_Inl [OF Inl] have "offsetTrades s" "e = NilPointerDereference" by simp_all
      then show thesis
        using Inl by (intro panic [of "ieif s @ [liab]"]) (simp_all add: mod(2))
    next
      case (Inr r)
      obtain skip bc1 where r: "r = (skip, bc1)" by (cases r)
      have bc1: "\<not> offsetTrades s \<Longrightarrow> bc1 = bc"
        using Inr r skipLevel_not_offset [of "offsetTrades s" bc] by simp
      show thesis
      proof (cases skip)
        case True
        show thesis
          by (rule continue [of "ieif s @ [liab]" bc1 ops deleteOps])
             (simp_all add: mod(2) Inr r True bc1)
      next
        case False
        show thesis
          by (rule continue [of "ieif s @ [liab]" bc1 "ops @ [mo]" deleteOps])
             (use mod(1) in \<open>auto simp add: mod(2) Inr r False bc1\<close>)
      qed
    qed
  qed
qed

lemma createLevels_Cons:
  obtains (error) e where
      "createLevels s (newOrder # newOrders) cf pm hack bc ops = (s, Inl (CollaboratorError e))"
  | (panic) "offsetTrades s"
      "createLevels s (newOrder # newOrders) cf pm hack bc ops = (s, Inl NilPointerDereference)"
  | (continue) l bc1 ops1 where
      "createLevels s (newOrder # newOrders) cf pm hack bc ops
       = createLevels (s\<lparr>ieif := l\<rparr>) newOrders cf pm hack bc1 ops1"
      "ops1 = ops \<or> (\<exists>mo l' b q p a i. cf l' b q p a i = Inr (Some mo) \<and> ops1 = ops @ [mo])"
proof -
  let ?price = "Scale (Price newOrder) pm"
  let ?vol = "Scale (Volume newOrder) (1 / volumeDivideBy s)"
  let ?incr = "ComputeIncrementalNativeAmountRaw (sdex s) True"
  have stay: "createLevels s newOrders cf pm hack bc' ops
              = createLevels (s\<lparr>ieif := ieif s\<rparr>) newOrders cf pm hack bc' ops" for bc'
    by simp
  show thesis
  proof (cases "AsFloat ?vol < AsFloat (MinBaseVolume (backingConstraints s))")
    case True
    have "createLevels s (newOrder # newOrders) cf pm hack bc ops
          = createLevels (s\<lparr>ieif := ieif s\<rparr>) newOrders cf pm hack bc ops"
      using True by (simp add: Let_def)
    then show thesis by (rule continue) simp
  next
    case False
    show thesis
    proof (cases "skipLevel (offsetTrades s) bc ?vol ?price")
      case (Inl e)
      from skipLevel_Inl [OF Inl] have "offsetTrades s" "e = NilPointerDereference" by simp_all
      then show thesis
        using Inl False by (intro panic) (simp_all add: Let_def)
    next
      case (Inr r)
      obtain skip bc1 where r: "r = (skip, bc1)" by (cases r)
      show thesis
      proof (cases skip)
        case True
        have "createLevels s (newOrder # newOrders) cf pm hack bc ops
              = createLevels (s\<lparr>ieif := ieif s\<rparr>) newOrders cf pm hack bc1 ops"
          using False Inr r True by (simp add: Let_def)
        then show thesis by (rule continue) simp
      next
        case noskip: False
        show thesis
        proof (cases "cf (ieif s) (baseAsset s) (quoteAsset s) (AsFloat ?price) (AsFloat ?vol) ?incr")
          case (Inl e)
          show thesis
            by (rule error [of e]) (use False Inr r noskip Inl in \<open>simp add: Let_def\<close>)
        next
          case created: (Inr mo)
          show thesis
          proof (cases mo)
            case None
            have "createLevels s (newOrder # newOrders) cf pm hack bc ops
                  = createLevels (s\<lparr>ieif := ieif s\<rparr>) newOrders cf pm hack bc1 ops"
              using False Inr r noskip created None by (simp add: Let_def)
            then show thesis by (rule continue) simp
          next
            case (Some op)
            let ?liab = "if hack
                         then AddLiabilities (quoteAsset s) (baseAsset s)
                                (AsFloat (Multiply ?vol ?price)) (AsFloat ?vol) ?incr
                         else AddLiabilities (baseAsset s) (quoteAsset s)
                                (AsFloat ?vol) (AsFloat (Multiply ?vol ?price)) ?incr"
            have "createLevels s (newOrder # newOrders) cf pm hack bc ops
                  = createLevels (s\<lparr>ieif := ieif s @ [?liab]\<rparr>) newOrders cf pm hack bc1 (ops @ [op])"
              using False Inr r noskip created Some by (simp add: Let_def)
            then show thesis
              by (rule continue) (use created Some in blast)
          qed
        qed
      qed
    qed
  qed
qed

lemma modifyLevels_state:
  "\<exists>l. fst (modifyLevels s oldOffers newOrders pm mf hack bc ops deleteOps) = s\<lparr>ieif := l\<rparr>"
proof (induction oldOffers arbitrary: s newOrders bc ops deleteOps)
  case Nil
  have "s = s\<lparr>ieif := ieif s\<rparr>" by simp
  then show ?case by (metis modifyLevels.simps(2) fst_conv)
next
  case (Cons oldOffer oldOffers)
  have self: "s = s\<lparr>ieif := ieif s\<rparr>" by simp
  show ?case
  proof (cases newOrders)
    case Nil
    then show ?thesis using self by (metis modifyLevels.simps(3) fst_conv)
  next
    case newOrders: (Cons newOrder newOrders')
    show ?thesis
    proof (cases rule: modifyLevels_Cons [of s oldOffer oldOffers newOrder newOrders' pm mf hack bc ops deleteOps])
      case (error e)
      then show ?thesis using self unfolding newOrders by (metis fst_conv)
    next
      case (panic l)
      then show ?thesis unfolding newOrders by (metis fst_conv)
    next
      case (continue l bc1 ops1 deleteOps1)
      from Cons.IH [of "s\<lparr>ieif := l\<rparr>" newOrders' bc1 ops1 deleteOps1]
      show ?thesis unfolding newOrders continue(1) by simp
    qed
  qed
qed

lemma modifyLevels_error:
  assumes "snd (modifyLevels s oldOffers newOrders pm mf hack bc ops deleteOps) = Inl e"
  shows "(\<exists>msg. e = CollaboratorError msg) \<or> (offsetTrades s \<and> e = NilPointerDereference)"
  using assms
proof (induction oldOffers arbitrary: s newOrders bc ops deleteOps)
  case Nil
  then show ?case by simp
next
  case (Cons oldOffer oldOffers)
  show ?case
  proof (cases newOrders)
    case Nil
    then show ?thesis using Cons.prems by simp
  next
    case newOrders: (Cons newOrder newOrders')
    show ?thesis
    proof (cases rule: modifyLevels_Cons [of s oldOffer oldOffers newOrder newOrders' pm mf hack bc ops deleteOps])
      case (error e')
      then show ?thesis using Cons.prems unfolding newOrders
        by (auto simp del: modifyLevels.simps createLevels.simps)
    next
      case (panic l)
      then show ?thesis using Cons.prems unfolding newOrders
        by (auto simp del: modifyLevels.simps createLevels.simps)
    next
      case (continue l bc1 ops1 deleteOps1)
      from Cons.prems have "snd (modifyLevels (s\<lparr>ieif := l\<rparr>) oldOffers newOrders' pm mf hack bc1 ops1 deleteOps1) = Inl e"
        unfolding newOrders continue(1) .
      from Cons.IH [OF this] show ?thesis by simp
    qed
  qed
qed

lemma modifyLevels_ops:
  assumes res: "snd (modifyLevels s oldOffers newOrders pm mf hack bc ops deleteOps) = Inr (bc', ops', deleteOps')"
  defines "P \<equiv> \<lambda>x. \<exists>l off p a i. mf l off p a i = Inr (Some x)"
  shows "(\<exists>new. ops' = ops @ new \<and> (\<forall>x \<in> set new. P x))
         \<and> (\<exists>new. deleteOps' = deleteOps @ new \<and> set new \<subseteq> DeleteOffer (sdex s) ` set oldOffers)
         \<and> (\<not> offsetTrades s \<longrightarrow> bc' = bc)"
  using res
proof (induction oldOffers arbitrary: s newOrders bc ops deleteOps)
  case Nil
  then show ?case by simp
next
  case (Cons oldOffer oldOffers)
  show ?case
  proof (cases newOrders)
    case Nil
    then show ?thesis using Cons.prems by simp
  next
    case newOrders: (Cons newOrder newOrders')
    show ?thesis
    proof (cases rule: modifyLevels_Cons [of s oldOffer oldOffers newOrder newOrders' pm mf hack bc ops deleteOps])
      case (error e')
      then show ?thesis using Cons.prems unfolding newOrders
        by (auto simp del: modifyLevels.simps createLevels.simps)
    next
      case (panic l)
      then show ?thesis using Cons.prems unfolding newOrders
        by (auto simp del: modifyLevels.simps createLevels.simps)
    next
      case (continue l bc1 ops1 deleteOps1)
      from Cons.prems have "snd (modifyLevels (s\<lparr>ieif := l\<rparr>) oldOffers newOrders' pm mf hack bc1 ops1 deleteOps1)
                            = Inr (bc', ops', deleteOps')"
        unfolding newOrders continue(1) .
      from Cons.IH [OF this] obtain new newd where
        new: "ops' = ops1 @ new" "\<forall>x \<in> set new. P x"
        and newd: "deleteOps' = deleteOps1 @ newd" "set newd \<subseteq> DeleteOffer (sdex s) ` set oldOffers"
        and bc: "\<not> offsetTrades s \<longrightarrow> bc' = bc1"
        by auto
      have P: "\<And>l off p a i x. mf l off p a i = Inr (Some x) \<Longrightarrow> P x"
        unfolding P_def by blast
      have "\<exists>new. ops' = ops @ new \<and> (\<forall>x \<in> set new. P x)"
        using continue(2) new P by auto
      moreover have "\<exists>new. deleteOps' = deleteOps @ new
                            \<and> set new \<subseteq> DeleteOffer (sdex s) ` set (oldOffer # oldOffers)"
        using continue(3) newd by auto
      moreover have "\<not> offsetTrades s \<longrightarrow> bc' = bc"
        using continue(4) bc by simp
      ultimately show ?thesis by blast
    qed
  qed
qed

lemma createLevels_state:
  "\<exists>l. fst (createLevels s newOrders cf pm hack bc ops) = s\<lparr>ieif := l\<rparr>"
proof (induction newOrders arbitrary: s bc ops)
  case Nil
  have "s = s\<lparr>ieif := ieif s\<rparr>" by simp
  then show ?case by (metis createLevels.simps(1) fst_conv)
next
  case (Cons newOrder newOrders)
  have self: "s = s\<lparr>ieif := ieif s\<rparr>" by simp
  show ?case
  proof (cases rule: createLevels_Cons [of s newOrder newOrders cf pm hack bc ops])
    case (error e)
    then show ?thesis using self by (metis fst_conv)
  next
    case panic
    then show ?thesis using self by (metis fst_conv)
  next
    case (continue l bc1 ops1)
    from Cons.IH [of "s\<lparr>ieif := l\<rparr>" bc1 ops1]
    show ?thesis unfolding continue(1) by simp
  qed
qed

lemma createLevels_error:
  assumes "snd (createLevels s newOrders cf pm hack bc ops) = Inl e"
  shows "(\<exists>msg. e = CollaboratorError msg) \<or> (offsetTrades s \<and> e = NilPointerDereference)"
  using assms
proof (induction newOrders arbitrary: s bc ops)
  case Nil
  then show ?case by simp
next
  case (Cons newOrder newOrders)
  show ?case
  proof (cases rule: createLevels_Cons [of s newOrder newOrders cf pm hack bc ops])
    case (error e')
    then show ?thesis using Cons.prems
      by (auto simp del: modifyLevels.simps createLevels.simps)
  next
    case panic
    then show ?thesis using Cons.prems
      by (auto simp del: modifyLevels.simps createLevels.simps)
  next
    case (continue l bc1 ops1)
    from Cons.prems have "snd (createLevels (s\<lparr>ieif := l\<rparr>) newOrders cf pm hack bc1 ops1) = Inl e"
      unfolding continue(1) .
    from Cons.IH [OF this] show ?thesis by simp
  qed
qed

lemma createLevels_ops:
  assumes res: "snd (createLevels s newOrders cf pm hack bc ops) = Inr (bc', ops')"
  defines "P \<equiv> \<lambda>x. \<exists>l b q p a i. cf l b q p a i = Inr (Some x)"
  shows "\<exists>new. ops' = ops @ new \<and> (\<forall>x \<in> set new. P x)"
  using res
proof (induction newOrders arbitrary: s bc ops)
  case Nil
  then show ?case by simp
next
  case (Cons newOrder newOrders)
  show ?case
  proof (cases rule: createLevels_Cons [of s newOrder newOrders cf pm hack bc ops])
    case (error e')
    then show ?thesis using Cons.prems
      by (auto simp del: modifyLevels.simps createLevels.simps)
  next
    case panic
    then show ?thesis using Cons.prems
      by (auto simp del: modifyLevels.simps createLevels.simps)
  next
    case (continue l bc1 ops1)
    from Cons.prems have "snd (createLevels (s\<lparr>ieif := l\<rparr>) newOrders cf pm hack bc1 ops1) = Inr (bc', ops')"
      unfolding continue(1) .
    from Cons.IH [OF this] obtain new where "ops' = ops1 @ new" "\<forall>x \<in> set new. P x"
      by auto
    moreover have "\<And>l b q p a i x. cf l b q p a i = Inr (Some x) \<Longrightarrow> P x"
      unfolding P_def by blast
    ultimately show ?thesis using continue(2) by auto
  qed
qed

lemma updateLevels_cases:
  obtains
    (modifyError) s1 e where
      "modifyLevels s oldOffers newOrders pm mf hack bc [] [] = (s1, Inl e)"
      "updateLevels s oldOffers newOrders mf cf pm hack bc = (s1, Inl e)"
  | (createError) s1 bc1 ops1 deleteOps s2 e where
      "modifyLevels s oldOffers newOrders pm mf hack bc [] [] = (s1, Inr (bc1, ops1, deleteOps))"
      "createLevels s1 (drop (length oldOffers) newOrders) cf pm hack bc1 ops1 = (s2, Inl e)"
      "updateLevels s oldOffers newOrders mf cf pm hack bc = (s2, Inl e)"
  | (created) s1 bc1 ops1 deleteOps s2 bc2 ops2 where
      "modifyLevels s oldOffers newOrders pm mf hack bc [] [] = (s1, Inr (bc1, ops1, deleteOps))"
      "createLevels s1 (drop (length oldOffers) newOrders) cf pm hack bc1 ops1 = (s2, Inr (bc2, ops2))"
      "updateLevels s oldOffers newOrders mf cf pm hack bc = (s2, Inr (deleteOps @ ops2))"
  | (deleted) s1 bc1 ops1 deleteOps where
      "modifyLevels s oldOffers newOrders pm mf hack bc [] [] = (s1, Inr (bc1, ops1, deleteOps))"
      "updateLevels s oldOffers newOrders mf cf pm hack bc
       = (s1, Inr ((deleteOps @ map (DeleteOffer (sdex s1)) (drop (length newOrders) oldOffers)) @ ops1))"
proof -
  obtain s1 r1 where m: "modifyLevels s oldOffers newOrders pm mf hack bc [] [] = (s1, r1)"
    by (cases "modifyLevels s oldOffers newOrders pm mf hack bc [] []")
  show thesis
  proof (cases r1)
    case (Inl e)
    have "updateLevels s oldOffers newOrders mf cf pm hack bc = (s1, Inl e)"
      by (simp add: updateLevels_def m Inl)
    with m Inl show thesis by (intro modifyError) simp_all
  next
    case (Inr t)
    obtain bc1 ops1 deleteOps where t: "t = (bc1, ops1, deleteOps)" by (cases t)
    show thesis
    proof (cases "length newOrders \<ge> length oldOffers")
      case False
      have "updateLevels s oldOffers newOrders mf cf pm hack bc
            = (s1, Inr ((deleteOps @ map (DeleteOffer (sdex s1)) (drop (length newOrders) oldOffers)) @ ops1))"
        using False by (simp add: updateLevels_def m Inr t)
      with m Inr t show thesis by (intro deleted) simp_all
    next
      case True
      obtain s2 r2 where c: "createLevels s1 (drop (length oldOffers) newOrders) cf pm hack bc1 ops1 = (s2, r2)"
        by (cases "createLevels s1 (drop (length oldOffers) newOrders) cf pm hack bc1 ops1")
      show thesis
      proof (cases r2)
        case (Inl e)
        have "updateLevels s oldOffers newOrders mf cf pm hack bc = (s2, Inl e)"
          using True by (simp add: updateLevels_def m Inr t c Inl)
        with m Inr t c Inl show thesis by (intro createError) simp_all
      next
        case r2: (Inr u)
        obtain bc2 ops2 where u: "u = (bc2, ops2)" by (cases u)
        have "updateLevels s oldOffers newOrders mf cf pm hack bc = (s2, Inr (deleteOps @ ops2))"
          using True by (simp add: updateLevels_def m Inr t c r2 u)
        with m Inr t c r2 u show thesis by (intro created) simp_all
      qed
    qed
  qed
qed

lemma updateLevels_state:
  "\<exists>l. fst (updateLevels s oldOffers newOrders mf cf pm hack bc) = s\<lparr>ieif := l\<rparr>"
proof -
  have ml: "modifyLevels s oldOffers newOrders pm mf hack bc [] [] = (s1, r1)
            \<Longrightarrow> \<exists>l. s1 = s\<lparr>ieif := l\<rparr>" for s1 r1
    using modifyLevels_state [of s oldOffers newOrders pm mf hack bc "[]" "[]"] by simp
  have cl: "createLevels (s\<lparr>ieif := l\<rparr>) os cf pm hack bc1 ops1 = (s2, r2)
            \<Longrightarrow> \<exists>l'. s2 = s\<lparr>ieif := l'\<rparr>" for l os bc1 ops1 s2 r2
    using createLevels_state [of "s\<lparr>ieif := l\<rparr>" os cf pm hack bc1 ops1] by simp
  show ?thesis
  proof (cases rule: updateLevels_cases [of s oldOffers newOrders pm mf hack bc cf])
    case (modifyError s1 e)
    then show ?thesis using ml by simp
  next
    case (createError s1 bc1 ops1 deleteOps s2 e)
    from ml [OF createError(1)] obtain l where "s1 = s\<lparr>ieif := l\<rparr>" by blast
    with createError(2) cl have "\<exists>l'. s2 = s\<lparr>ieif := l'\<rparr>" by blast
    then show ?thesis by (simp add: createError(3))
  next
    case (created s1 bc1 ops1 deleteOps s2 bc2 ops2)
    from ml [OF created(1)] obtain l where "s1 = s\<lparr>ieif := l\<rparr>" by blast
    with created(2) cl have "\<exists>l'. s2 = s\<lparr>ieif := l'\<rparr>" by blast
    then show ?thesis by (simp add: created(3))
  next
    case (deleted s1 bc1 ops1 deleteOps)
    then show ?thesis using ml by simp
  qed
qed

lemma updateLevels_error:
  assumes "snd (updateLevels s oldOffers newOrders mf cf pm hack bc) = Inl e"
  shows "(\<exists>msg. e = CollaboratorError msg) \<or> (offsetTrades s \<and> e = NilPointerDereference)"
proof (cases rule: updateLevels_cases [of s oldOffers newOrders pm mf hack bc cf])
  case (modifyError s1 e1)
  then have "snd (modifyLevels s oldOffers newOrders pm mf hack bc [] []) = Inl e"
    using assms by simp
  then show ?thesis by (rule modifyLevels_error)
next
  case (createError s1 bc1 ops1 deleteOps s2 e1)
  obtain l where s1: "s1 = s\<lparr>ieif := l\<rparr>"
    using modifyLevels_state [of s oldOffers newOrders pm mf hack bc "[]" "[]"] createError(1) by auto
  have "snd (createLevels s1 (drop (length oldOffers) newOrders) cf pm hack bc1 ops1) = Inl e"
    using assms createError by simp
  from createLevels_error [OF this] show ?thesis by (simp add: s1)
next
  case (created s1 bc1 ops1 deleteOps s2 bc2 ops2)
  then show ?thesis using assms by simp
next
  case (deleted s1 bc1 ops1 deleteOps)
  then show ?thesis using assms by simp
qed

lemma isModifyOrCreate_modify:
  "\<exists>l off p a i. mf l off p a i = Inr (Some x) \<Longrightarrow> isModifyOrCreate mf cf x"
  by (simp add: isModifyOrCreate_def)

lemma isModifyOrCreate_create:
  "\<exists>l b q p a i. cf l b q p a i = Inr (Some x) \<Longrightarrow> isModifyOrCreate mf cf x"
  by (simp add: isModifyOrCreate_def)

lemma updateLevels_deletesFirst:
  assumes "snd (updateLevels s oldOffers newOrders mf cf pm hack bc) = Inr xs"
  shows "deletesFirst (sdex s) oldOffers mf cf xs"
proof -
  have parts: "\<forall>x \<in> set ops1. isModifyOrCreate mf cf x"
              "\<forall>x \<in> set deleteOps. isDeleteOf (sdex s) oldOffers x"
    if "modifyLevels s oldOffers newOrders pm mf hack bc [] [] = (s1, Inr (bc1, ops1, deleteOps))"
    for s1 bc1 ops1 deleteOps
  proof -
    from that have "snd (modifyLevels s oldOffers newOrders pm mf hack bc [] []) = Inr (bc1, ops1, deleteOps)"
      by simp
    from modifyLevels_ops [OF this]
    have a: "\<forall>x \<in> set ops1. \<exists>l off p a i. mf l off p a i = Inr (Some x)"
      and b: "set deleteOps \<subseteq> DeleteOffer (sdex s) ` set oldOffers"
      by simp_all
    from a show "\<forall>x \<in> set ops1. isModifyOrCreate mf cf x"
      using isModifyOrCreate_modify [of mf _ cf] by blast
    from b show "\<forall>x \<in> set deleteOps. isDeleteOf (sdex s) oldOffers x"
      unfolding isDeleteOf_def by blast
  qed
  show ?thesis
  proof (cases rule: updateLevels_cases [of s oldOffers newOrders pm mf hack bc cf])
    case (modifyError s1 e)
    then show ?thesis using assms by simp
  next
    case (createError s1 bc1 ops1 deleteOps s2 e)
    then show ?thesis using assms by simp
  next
    case (created s1 bc1 ops1 deleteOps s2 bc2 ops2)
    have xs: "xs = deleteOps @ ops2" using assms created(3) by simp
    have "snd (createLevels s1 (drop (length oldOffers) newOrders) cf pm hack bc1 ops1) = Inr (bc2, ops2)"
      by (simp add: created(2))
    from createLevels_ops [OF this]
    obtain new where new: "ops2 = ops1 @ new"
      "\<forall>x \<in> set new. \<exists>l b q p a i. cf l b q p a i = Inr (Some x)"
      by blast
    from new(2) have "\<forall>x \<in> set new. isModifyOrCreate mf cf x"
      using isModifyOrCreate_create [of cf _ mf] by blast
    then have "\<forall>x \<in> set ops2. isModifyOrCreate mf cf x"
      using parts(1) [OF created(1)] new(1) by auto
    with xs parts(2) [OF created(1)] show ?thesis
      unfolding deletesFirst_def by (intro exI [of _ deleteOps] exI [of _ ops2]) simp
  next
    case (deleted s1 bc1 ops1 deleteOps)
    obtain l where s1: "s1 = s\<lparr>ieif := l\<rparr>"
      using modifyLevels_state [of s oldOffers newOrders pm mf hack bc "[]" "[]"] deleted(1) by auto
    let ?dels = "deleteOps @ map (DeleteOffer (sdex s)) (drop (length newOrders) oldOffers)"
    have xs: "xs = ?dels @ ops1"
      using assms deleted(2) by (simp add: s1)
    have "\<forall>x \<in> set (map (DeleteOffer (sdex s)) (drop (length newOrders) oldOffers)).
            isDeleteOf (sdex s) oldOffers x"
      unfolding isDeleteOf_def by (auto dest: in_set_dropD)
    then have "\<forall>x \<in> set ?dels. isDeleteOf (sdex s) oldOffers x"
      using parts(2) [OF deleted(1)] by auto
    with xs parts(1) [OF deleted(1)] show ?thesis
      unfolding deletesFirst_def by (intro exI [of _ ?dels] exI [of _ ops1]) simp
  qed
qed

text \<open>
  C9. For a paired level for which \<open>doModifyOffer\<close> returns a modify operation while,
  with \<open>offsetTrades\<close> set, the balance coordinator rejects the new order's volume and
  price: the loop continues with \<open>ops\<close> and \<open>deleteOps\<close> as they were, so the modify
  operation is not emitted (for a single level the batch is empty), no delete is queued,
  and \<open>doModifyOffer\<close> has already added exactly one entry to the liability cache.
\<close>

theorem modifyLevels_rejected_modify:
  assumes dm: "doModifyOffer s oldOffer newOrder pm mf hack = (s', Inr (Some mo, deleteOp))"
      and off: "offsetTrades s"
      and rej: "checkBalance bc (Volume newOrder) (Price newOrder) = Inr (False, bc')"
  shows "modifyLevels s (oldOffer # oldOffers) (newOrder # newOrders) pm mf hack bc ops deleteOps
           = modifyLevels s' oldOffers newOrders pm mf hack bc ops deleteOps
         \<and> (\<exists>liab. ieif s' = ieif s @ [liab])
         \<and> deleteOp = None
         \<and> updateLevels s [oldOffer] [newOrder] mf cf pm hack bc = (s', Inr [])"
proof -
  from doModifyOffer_cases [of s oldOffer newOrder pm mf hack] dm
  obtain liab where s': "s' = s\<lparr>ieif := ieif s @ [liab]\<rparr>" and d: "deleteOp = None"
    by auto
  have bc': "bc' = bc"
    using rej by (auto simp add: checkBalance_def Let_def split: option.splits if_splits)
  have skip: "skipLevel (offsetTrades s') bc (Volume newOrder) (Price newOrder) = Inr (True, bc)"
    using off rej by (simp add: skipLevel_def s' bc')
  have step: "modifyLevels s (oldOffer # oldOffers') (newOrder # newOrders') pm mf hack bc ops' deleteOps'
           = modifyLevels s' oldOffers' newOrders' pm mf hack bc ops' deleteOps'"
    for oldOffers' newOrders' ops' deleteOps'
    by (simp add: dm skip)
  have "modifyLevels s [oldOffer] [newOrder] pm mf hack bc [] [] = (s', Inr (bc, [], []))"
    by (simp only: step modifyLevels.simps(2))
  then have "updateLevels s [oldOffer] [newOrder] mf cf pm hack bc = (s', Inr [])"
    by (simp add: updateLevels_def del: modifyLevels.simps)
  with step s' d show ?thesis by simp
qed

theorem modifyLevels_rejected_modify_witness:
  "snd (updateLevels testStrategy [testBuyOffer 1 6 2] [testOrder (1 / 2) 10]
          (ModifyBuyOffer testSdex) (CreateBuyOffer testSdex) 1 True (testCoordinator (1 / 2) False))
   = Inr []
   \<and> ieif (fst (updateLevels testStrategy [testBuyOffer 1 6 2] [testOrder (1 / 2) 10]
          (ModifyBuyOffer testSdex) (CreateBuyOffer testSdex) 1 True (testCoordinator (1 / 2) False)))
     = [AddLiabilities (quoteAsset testStrategy) (baseAsset testStrategy) 5 10 0]"
proof -
  have dm: "doModifyOffer testStrategy (testBuyOffer 1 6 2) (testOrder (1 / 2) 10) 1
              (ModifyBuyOffer testSdex) True
            = (testStrategy\<lparr>ieif := [AddLiabilities (quoteAsset testStrategy) (baseAsset testStrategy) 5 10 0]\<rparr>,
               Inr (Some (OpModify 1 (1 / 2) 10), None))"
    by (simp add: eval_defs)
  have off: "offsetTrades testStrategy" by (simp add: testStrategy_def)
  have rej: "checkBalance (testCoordinator (1 / 2) False) (Volume (testOrder (1 / 2) 10))
               (Price (testOrder (1 / 2) 10)) = Inr (False, testCoordinator (1 / 2) False)"
    by (simp add: eval_defs)
  show ?thesis
    using modifyLevels_rejected_modify [OF dm off rej, of "[]" "[]" "[]" "[]" "CreateBuyOffer testSdex"]
    by simp
qed

text \<open>
  C5, evaluated. A new level (no resting offer) of price 0.12345678 and volume
  2.00000005, with price multiplier 1 and \<open>volumeDivideBy\<close> 1, passes the minimum
  volume and the balance coordinator. The create function receives 0.12345678 and
  2.00000005, the scaled values as they are; capped to the 7 decimals of the primary
  exchange they are 0.1234567 and 2, which is what \<open>doModifyOffer\<close> passes to the
  modify function when the same order meets a resting offer.
\<close>

theorem createLevels_passes_uncapped_values:
  "snd (updateLevels testStrategy []
          [testOrder (12345678 / 100000000) (200000005 / 100000000)]
          (ModifySellOffer testSdex) (CreateSellOffer testSdex) 1 False (testCoordinator 100 True))
   = Inr [OpCreate (12345678 / 100000000) (200000005 / 100000000)]
   \<and> AsFloat (NumberByCappingPrecision
                (Scale (Price (testOrder (12345678 / 100000000) (200000005 / 100000000))) 1)
                (PricePrecision (primaryConstraints testStrategy)))
     = 1234567 / 10000000
   \<and> AsFloat (NumberByCappingPrecision
                (Scale (Volume (testOrder (12345678 / 100000000) (200000005 / 100000000)))
                   (1 / volumeDivideBy testStrategy))
                (VolumePrecision (primaryConstraints testStrategy)))
     = 2
   \<and> snd (updateLevels testStrategy [testSellOffer 1 1 1]
            [testOrder (12345678 / 100000000) (200000005 / 100000000)]
            (ModifySellOffer testSdex) (CreateSellOffer testSdex) 1 False (testCoordinator 100 True))
     = Inr [OpModify 1 (1234567 / 10000000) 2]"
  by (simp add: eval_defs)

subsection \<open>The batch of \<open>UpdateWithOps\<close>\<close>

text \<open>
  C4. The batch that \<open>UpdateWithOps\<close> returns is the operations of the bid side
  followed by those of the ask side, unless the backing book has a bid, there is a
  resting ask and the price of the top backing bid is at least the price of the first
  resting ask: then the ask side comes first. On each side the delete operations
  precede the modify and create operations.
\<close>

theorem UpdateWithOps_order:
  assumes book: "GetOrderBook (exchange s) (backingPair s) (orderbookDepth s) = Inr ob"
      and res: "snd (UpdateWithOps s buyingAOffers sellingAOffers) = Inr batch"
  shows "\<exists>buyOps sellOps.
           deletesFirst (sdex s) buyingAOffers (ModifyBuyOffer (sdex s)) (CreateBuyOffer (sdex s)) buyOps
           \<and> deletesFirst (sdex s) sellingAOffers (ModifySellOffer (sdex s)) (CreateSellOffer (sdex s)) sellOps
           \<and> batch = (if Bids ob \<noteq> [] \<and> sellingAOffers \<noteq> []
                            \<and> AsFloat (Price (hd (Bids ob))) \<ge> OfferPrice (hd sellingAOffers)
                       then sellOps @ buyOps
                       else buyOps @ sellOps)"
proof -
  let ?bids = "if length (Bids ob) > 50 then take 50 (Bids ob) else Bids ob"
  let ?asks = "if length (Asks ob) > 50 then take 50 (Asks ob) else Asks ob"
  let ?sellBC = "\<lparr>placedUnits = Zero, backingBalance = maxBackingBase s,
                   backingAssetType = ''base'', isBackingBuy = False\<rparr>"
  obtain s1 r1 where u1:
    "updateLevels s buyingAOffers ?bids (ModifyBuyOffer (sdex s)) (CreateBuyOffer (sdex s))
       (1 - perLevelSpread s) True ?sellBC = (s1, r1)"
    by (cases "updateLevels s buyingAOffers ?bids (ModifyBuyOffer (sdex s)) (CreateBuyOffer (sdex s))
       (1 - perLevelSpread s) True ?sellBC")
  obtain l where s1: "s1 = s\<lparr>ieif := l\<rparr>"
    using updateLevels_state [of s buyingAOffers ?bids "ModifyBuyOffer (sdex s)" "CreateBuyOffer (sdex s)"
            "1 - perLevelSpread s" True ?sellBC] u1 by auto
  let ?buyBC = "\<lparr>placedUnits = Zero, backingBalance = maxBackingQuote s1,
                  backingAssetType = ''quote'', isBackingBuy = True\<rparr>"
  obtain s2 r2 where u2:
    "updateLevels s1 sellingAOffers ?asks (ModifySellOffer (sdex s1)) (CreateSellOffer (sdex s1))
       (1 + perLevelSpread s1) False ?buyBC = (s2, r2)"
    by (cases "updateLevels s1 sellingAOffers ?asks (ModifySellOffer (sdex s1)) (CreateSellOffer (sdex s1))
       (1 + perLevelSpread s1) False ?buyBC")
  have unfolded: "UpdateWithOps s buyingAOffers sellingAOffers =
      (case r1 of
         Inl e \<Rightarrow> (s1, Inl e)
       | Inr buyOps \<Rightarrow>
           (case r2 of
              Inl e \<Rightarrow> (s2, Inl e)
            | Inr sellOps \<Rightarrow>
                (s2, Inr (if length (Bids ob) > 0 \<and> length sellingAOffers > 0
                             \<and> AsFloat (Price (Bids ob ! 0)) \<ge> PriceAsFloat (OfferPrice (sellingAOffers ! 0))
                          then sellOps @ buyOps
                          else buyOps @ sellOps))))"
    using u1 u2 by (simp add: UpdateWithOps_def book Let_def split: sum.split)
  obtain buyOps where r1: "r1 = Inr buyOps"
    using res unfolded by (cases r1) simp_all
  obtain sellOps where r2: "r2 = Inr sellOps"
    using res unfolded r1 by (cases r2) simp_all
  have batch: "batch = (if Bids ob \<noteq> [] \<and> sellingAOffers \<noteq> []
                            \<and> AsFloat (Price (hd (Bids ob))) \<ge> OfferPrice (hd sellingAOffers)
                        then sellOps @ buyOps
                        else buyOps @ sellOps)"
    using res unfolded r1 r2 by (auto simp add: PriceAsFloat_def hd_conv_nth)
  have "snd (updateLevels s buyingAOffers ?bids (ModifyBuyOffer (sdex s)) (CreateBuyOffer (sdex s))
               (1 - perLevelSpread s) True ?sellBC) = Inr buyOps"
    by (simp add: u1 r1)
  then have buy: "deletesFirst (sdex s) buyingAOffers (ModifyBuyOffer (sdex s)) (CreateBuyOffer (sdex s)) buyOps"
    by (rule updateLevels_deletesFirst)
  have "snd (updateLevels s1 sellingAOffers ?asks (ModifySellOffer (sdex s1)) (CreateSellOffer (sdex s1))
               (1 + perLevelSpread s1) False ?buyBC) = Inr sellOps"
    by (simp add: u2 r2)
  then have "deletesFirst (sdex s1) sellingAOffers (ModifySellOffer (sdex s1)) (CreateSellOffer (sdex s1)) sellOps"
    by (rule updateLevels_deletesFirst)
  then have sell: "deletesFirst (sdex s) sellingAOffers (ModifySellOffer (sdex s)) (CreateSellOffer (sdex s)) sellOps"
    by (simp add: s1)
  from buy sell batch show ?thesis by blast
qed

theorem UpdateWithOps_order_witness:
  "snd (UpdateWithOps mirrorOnly [testBuyOffer 1 6 2]
          [testSellOffer 2 10 (45 / 100), testSellOffer 3 5 (7 / 10)])
   = Inr [OpDelete 3, OpModify 2 (3 / 5) 10, OpModify 1 (1 / 2) 10, OpCreate (2 / 5) 20]"
proof -
  have book: "GetOrderBook (exchange mirrorOnly) (backingPair mirrorOnly) (orderbookDepth mirrorOnly)
              = Inr \<lparr>Bids = [testOrder (1 / 2) 10, testOrder (2 / 5) 20], Asks = [testOrder (3 / 5) 10]\<rparr>"
    by (simp add: mirrorOnly_def bookExchange_def)
  have res: "snd (UpdateWithOps mirrorOnly [testBuyOffer 1 6 2]
                    [testSellOffer 2 10 (45 / 100), testSellOffer 3 5 (7 / 10)])
             = Inr [OpDelete 3, OpModify 2 (3 / 5) 10, OpModify 1 (1 / 2) 10, OpCreate (2 / 5) 20]"
    by (simp add: eval_defs)
  show ?thesis
    using UpdateWithOps_order [OF book res] res by simp
qed

text \<open>
  C10. Without \<open>offsetTrades\<close>, \<open>PreUpdate\<close> returns the strategy as it is, so the
  backing balances stay nil, and \<open>UpdateWithOps\<close> never dereferences a nil backing
  balance: neither loop calls \<open>checkBalance\<close>, whose call on a nil balance would be
  the panic.
\<close>

theorem UpdateWithOps_without_offsetTrades:
  assumes "\<not> offsetTrades s"
  shows "PreUpdate s maxAssetA maxAssetB trustA trustB = (s, None)
         \<and> snd (UpdateWithOps s buyingAOffers sellingAOffers) \<noteq> Inl NilPointerDereference"
proof -
  have pre: "PreUpdate s maxAssetA maxAssetB trustA trustB = (s, None)"
    using assms by (simp add: PreUpdate_def)
  have "e \<noteq> NilPointerDereference" if e: "snd (UpdateWithOps s buyingAOffers sellingAOffers) = Inl e" for e
  proof (cases "GetOrderBook (exchange s) (backingPair s) (orderbookDepth s)")
    case (Inl msg)
    then show ?thesis using e by (auto simp add: UpdateWithOps_def)
  next
    case (Inr ob)
    let ?bids = "if length (Bids ob) > 50 then take 50 (Bids ob) else Bids ob"
    let ?asks = "if length (Asks ob) > 50 then take 50 (Asks ob) else Asks ob"
    let ?sellBC = "\<lparr>placedUnits = Zero, backingBalance = maxBackingBase s,
                     backingAssetType = ''base'', isBackingBuy = False\<rparr>"
    obtain s1 r1 where u1:
      "updateLevels s buyingAOffers ?bids (ModifyBuyOffer (sdex s)) (CreateBuyOffer (sdex s))
         (1 - perLevelSpread s) True ?sellBC = (s1, r1)"
      by (cases "updateLevels s buyingAOffers ?bids (ModifyBuyOffer (sdex s)) (CreateBuyOffer (sdex s))
         (1 - perLevelSpread s) True ?sellBC")
    obtain l where s1: "s1 = s\<lparr>ieif := l\<rparr>"
      using updateLevels_state [of s buyingAOffers ?bids "ModifyBuyOffer (sdex s)" "CreateBuyOffer (sdex s)"
              "1 - perLevelSpread s" True ?sellBC] u1 by auto
    let ?buyBC = "\<lparr>placedUnits = Zero, backingBalance = maxBackingQuote s1,
                    backingAssetType = ''quote'', isBackingBuy = True\<rparr>"
    obtain s2 r2 where u2:
      "updateLevels s1 sellingAOffers ?asks (ModifySellOffer (sdex s1)) (CreateSellOffer (sdex s1))
         (1 + perLevelSpread s1) False ?buyBC = (s2, r2)"
      by (cases "updateLevels s1 sellingAOffers ?asks (ModifySellOffer (sdex s1)) (CreateSellOffer (sdex s1))
         (1 + perLevelSpread s1) False ?buyBC")
    have unfolded: "snd (UpdateWithOps s buyingAOffers sellingAOffers) =
        (case r1 of
           Inl e \<Rightarrow> Inl e
         | Inr buyOps \<Rightarrow>
             (case r2 of
                Inl e \<Rightarrow> Inl e
              | Inr sellOps \<Rightarrow>
                  Inr (if length (Bids ob) > 0 \<and> length sellingAOffers > 0
                          \<and> AsFloat (Price (Bids ob ! 0)) \<ge> PriceAsFloat (OfferPrice (sellingAOffers ! 0))
                       then sellOps @ buyOps
                       else buyOps @ sellOps)))"
      using u1 u2 by (simp add: UpdateWithOps_def Inr Let_def split: sum.split)
    show ?thesis
    proof (cases r1)
      case (Inl e1)
      then have "snd (updateLevels s buyingAOffers ?bids (ModifyBuyOffer (sdex s)) (CreateBuyOffer (sdex s))
                   (1 - perLevelSpread s) True ?sellBC) = Inl e"
        using e unfolded u1 by simp
      from updateLevels_error [OF this] show ?thesis using assms by auto
    next
      case r1: (Inr buyOps)
      then obtain e2 where "r2 = Inl e2" "e2 = e"
        using e unfolded by (cases r2) simp_all
      then have "snd (updateLevels s1 sellingAOffers ?asks (ModifySellOffer (sdex s1)) (CreateSellOffer (sdex s1))
                   (1 + perLevelSpread s1) False ?buyBC) = Inl e"
        using u2 by simp
      from updateLevels_error [OF this] show ?thesis using assms by (auto simp add: s1)
    qed
  qed
  then show ?thesis using pre by blast
qed

theorem UpdateWithOps_without_offsetTrades_witness:
  "\<not> offsetTrades mirrorOnly
   \<and> maxBackingBase mirrorOnly = None \<and> maxBackingQuote mirrorOnly = None
   \<and> snd (PreUpdate mirrorOnly 100 100 100 100) = None
   \<and> maxBackingBase (fst (PreUpdate mirrorOnly 100 100 100 100)) = None
   \<and> maxBackingQuote (fst (PreUpdate mirrorOnly 100 100 100 100)) = None
   \<and> snd (UpdateWithOps mirrorOnly [] [])
       = Inr [OpCreate (1 / 2) 10, OpCreate (2 / 5) 20, OpCreate (3 / 5) 10]"
proof -
  have off: "\<not> offsetTrades mirrorOnly" by (simp add: mirrorOnly_def)
  have run: "snd (UpdateWithOps mirrorOnly [] [])
             = Inr [OpCreate (1 / 2) 10, OpCreate (2 / 5) 20, OpCreate (3 / 5) 10]"
    by (simp add: eval_defs)
  show ?thesis
    using UpdateWithOps_without_offsetTrades [OF off, of 100 100 100 100 "[]" "[]"] off run
    by (simp add: mirrorOnly_def testStrategy_def)
qed

end
